theory Spec2Isabelle
  imports Main
begin

section \<open>Python strings and sets\<close>

text \<open>
  Python strings are modelled as \<^typ>\<open>string\<close>: a character is a code point below
  256, and the length of a string counts its code points. \<open>sub in s\<close> is substring
  containment and \<open>s.startswith(p)\<close> a prefix test. \<open>s.strip()\<close> removes at both
  ends the characters for which \<open>isspace()\<close> holds: the space, 0x09 to 0x0D, 0x1C to
  0x1F, 0x85 and 0xA0. \<open>s.lower()\<close> maps the capitals A to Z and the capitals 0xC0 to
  0xDE, the multiplication sign 0xD7 apart, to the small letter 32 code points above.
\<close>

definition startswith :: "string \<Rightarrow> string \<Rightarrow> bool" where
  "startswith s p = (take (length p) s = p)"

fun contains_str :: "string \<Rightarrow> string \<Rightarrow> bool" where
  "contains_str sub [] = (sub = [])"
| "contains_str sub (c # cs) = (startswith (c # cs) sub \<or> contains_str sub cs)"

definition is_space :: "char \<Rightarrow> bool" where
  "is_space c =
     (c \<in> set [CHR '' '', CHR 0x09, CHR 0x0A, CHR 0x0B, CHR 0x0C, CHR 0x0D,
                CHR 0x1C, CHR 0x1D, CHR 0x1E, CHR 0x1F, CHR 0x85, CHR 0xA0])"

definition py_strip :: "string \<Rightarrow> string" where
  "py_strip s = rev (dropWhile is_space (rev (dropWhile is_space s)))"

definition is_capital :: "char \<Rightarrow> bool" where
  "is_capital c =
     ((65 \<le> (of_char c :: nat) \<and> (of_char c :: nat) \<le> 90)
      \<or> (192 \<le> (of_char c :: nat) \<and> (of_char c :: nat) \<le> 214)
      \<or> (216 \<le> (of_char c :: nat) \<and> (of_char c :: nat) \<le> 222))"

definition lower_char :: "char \<Rightarrow> char" where
  "lower_char c = (if is_capital c then char_of ((of_char c :: nat) + 32) else c)"

definition py_lower :: "string \<Rightarrow> string" where
  "py_lower s = map lower_char s"

text \<open>\<open>str(b)\<close> for a Python bool, as the f-string of the item identity prints it.\<close>

definition str_bool :: "bool \<Rightarrow> string" where
  "str_bool b = (if b then ''True'' else ''False'')"

text \<open>
  A Python \<open>set\<close> of strings is modelled by the duplicate-free list of its members;
  the order of the list stands for the iteration order of the set, which Python leaves
  open. \<open>s.add(x)\<close> is \<open>set_add\<close>, \<open>set(xs)\<close> is \<^const>\<open>remdups\<close>, \<open>x in s\<close> is
  membership in \<^const>\<open>set\<close>, and \<open>list(s)\<close> is the list itself.
\<close>

definition set_add :: "string \<Rightarrow> string list \<Rightarrow> string list" where
  "set_add x s = (if x \<in> set s then s else s @ [x])"

section \<open>The rendered page\<close>

text \<open>
  The browser is an external collaborator. What it hands to the scraper is a rendered
  document tree: text nodes, and elements with a tag name, attributes, the visible text
  Selenium reports for \<open>element.text\<close>, the rendered size (\<open>None\<close> when reading
  \<open>element.size\<close> raises) and the children. An element whose \<open>stale\<close> flag is set is
  one whose handle raises on every access (the page re-rendered it after it was found).
\<close>

datatype error = WebDriverError | StaleElementReference | NoSuchElement | InvalidSelector
  | RequestError

datatype node =
    Text string
  | Elem (tag: string) (attrs: "(string \<times> string) list") (stale: bool)
      (vis_text: string) (rect: "(int \<times> int) option") (kids: "node list")

text \<open>
  An element handle is the element together with its ancestors, nearest first.
  \<open>handles anc n\<close> lists the handles of all elements of the tree \<open>n\<close> in document
  order; \<open>elements n\<close> lists the elements alone.
\<close>

type_synonym handle = "node \<times> node list"

fun handles :: "node list \<Rightarrow> node \<Rightarrow> handle list" where
  "handles anc (Text t) = []"
| "handles anc (Elem tg at st vt rc ks) =
     (Elem tg at st vt rc ks, anc)
       # concat (map (handles (Elem tg at st vt rc ks # anc)) ks)"

fun elements :: "node \<Rightarrow> node list" where
  "elements (Text t) = []"
| "elements (Elem tg at st vt rc ks) = Elem tg at st vt rc ks # concat (map elements ks)"

definition descendants :: "node \<Rightarrow> node list" where
  "descendants n = concat (map elements (kids n))"

text \<open>
  XPath 1.0 as the scraper uses it. \<open>@a\<close> in a string context is the value of the
  attribute, or the empty string; \<open>text()\<close> in a string context is the first text child
  of the element, or the empty string.
\<close>

definition attribute :: "node \<Rightarrow> string \<Rightarrow> string" where
  "attribute n a = (case map_of (attrs n) a of None \<Rightarrow> [] | Some v \<Rightarrow> v)"

fun first_text :: "node list \<Rightarrow> string" where
  "first_text [] = []"
| "first_text (Text t # ks) = t"
| "first_text (Elem tg at st vt rc ks' # ks) = first_text ks"

definition xp_text :: "node \<Rightarrow> string" where
  "xp_text n = first_text (kids n)"

text \<open>Selenium's accessors on a handle: each raises on a stale element.\<close>

definition get_attribute :: "node \<Rightarrow> string \<Rightarrow> error + string option" where
  "get_attribute n a = (if stale n then Inl StaleElementReference else Inr (map_of (attrs n) a))"

definition text_of :: "node \<Rightarrow> error + string" where
  "text_of n = (if stale n then Inl StaleElementReference else Inr (vis_text n))"

definition size_of :: "node \<Rightarrow> error + (int \<times> int)" where
  "size_of n =
     (if stale n then Inl StaleElementReference
      else case rect n of None \<Rightarrow> Inl WebDriverError | Some wh \<Rightarrow> Inr wh)"

text \<open>A Python value used as a condition: \<open>None\<close> and the empty string are false.\<close>

definition truthy :: "string option \<Rightarrow> bool" where
  "truthy v = (case v of None \<Rightarrow> False | Some s \<Rightarrow> s \<noteq> [])"

text \<open>\<open>//*[contains(text(), 'FREE!')]\<close>, in document order.\<close>

definition is_free_marker :: "node \<Rightarrow> bool" where
  "is_free_marker n = contains_str ''FREE!'' (xp_text n)"

definition free_markers :: "node \<Rightarrow> handle list" where
  "free_markers doc = filter (\<lambda>h. is_free_marker (fst h)) (handles [] doc)"

text \<open>\<open>./ancestor-or-self::*[contains(@class, 'eso-plus-loyalty')]\<close> from a handle.\<close>

definition has_loyalty_class :: "node \<Rightarrow> bool" where
  "has_loyalty_class n = contains_str ''eso-plus-loyalty'' (attribute n ''class'')"

definition loyalty_elements :: "handle \<Rightarrow> node list" where
  "loyalty_elements h = filter has_loyalty_class (fst h # snd h)"

text \<open>
  \<open>//*[contains(text(), 'FREE!') and contains(text(), 'With ESO Plus Deal')]\<close>.
\<close>

definition eso_plus_free_text :: "node \<Rightarrow> node list" where
  "eso_plus_free_text doc =
     filter (\<lambda>n. contains_str ''FREE!'' (xp_text n) \<and> contains_str ''With ESO Plus Deal'' (xp_text n))
       (elements doc)"

section \<open>Classifying a detail page\<close>

text \<open>
  The ClassifiedItem record, with the field names of the dictionary that
  \<open>extract_item_details\<close> builds.
\<close>

record item =
  name :: string
  url :: string
  category_url :: string
  image_url :: "string option"
  is_eso_plus_free :: bool
  found_date :: string

text \<open>
  The loop over the \<open>FREE!\<close> elements (lines 136 to 168). Reading the tag name of a
  stale element raises, the handler logs and the loop continues with the next element;
  the first element with a loyalty element among itself and its ancestors ends the loop.
\<close>

fun loyalty_loop :: "handle list \<Rightarrow> bool" where
  "loyalty_loop [] = False"
| "loyalty_loop (h # hs) =
     (if stale (fst h) then loyalty_loop hs
      else if loyalty_elements h \<noteq> [] then True
      else loyalty_loop hs)"

text \<open>
  The name selectors (lines 194 to 202). The first three are the tag queries \<open>//h1\<close>,
  \<open>//h2\<close>, \<open>//h3\<close>. The other four are written \<open>//*[@class*="title"]\<close> and so on:
  after the name \<open>class\<close> XPath 1.0 reads \<open>*\<close> as the multiplication operator, no
  operand follows it, and the browser refuses the expression, so that
  \<open>find_elements\<close> raises.
\<close>

datatype selector = ByTag string | ClassStar string

definition name_selectors :: "selector list" where
  "name_selectors =
     [ByTag ''h1'', ByTag ''h2'', ByTag ''h3'', ClassStar ''title'', ClassStar ''name'',
      ClassStar ''item-name'', ClassStar ''product-name'']"

fun find_elements :: "node \<Rightarrow> selector \<Rightarrow> error + node list" where
  "find_elements doc (ByTag t) = Inr (filter (\<lambda>n. tag n = t) (elements doc))"
| "find_elements doc (ClassStar c) = Inl InvalidSelector"

definition qualifies :: "string \<Rightarrow> bool" where
  "qualifies text =
     (text \<noteq> [] \<and> length text > 2 \<and> \<not> contains_str ''crown store'' (py_lower text)
      \<and> \<not> contains_str ''purchase crowns'' (py_lower text))"

fun first_name :: "node list \<Rightarrow> error + string option" where
  "first_name [] = Inr None"
| "first_name (e # es) =
     (case text_of e of
        Inl err \<Rightarrow> Inl err
      | Inr t \<Rightarrow> if qualifies (py_strip t) then Inr (Some (py_strip t)) else first_name es)"

fun resolve_name :: "node \<Rightarrow> selector list \<Rightarrow> error + string option" where
  "resolve_name doc [] = Inr None"
| "resolve_name doc (s # ss) =
     (case find_elements doc s of
        Inl err \<Rightarrow> Inl err
      | Inr els \<Rightarrow>
          (case first_name els of
             Inl err \<Rightarrow> Inl err
           | Inr (Some n) \<Rightarrow> Inr (Some n)
           | Inr None \<Rightarrow> resolve_name doc ss))"

text \<open>
  Image resolution (lines 231 to 266). \<open>unique_images\<close> is a dictionary from address
  to area: an assignment to a key already present keeps the key's position, a new key
  goes to the end. \<open>max(keys, key=...)\<close> returns the first key of greatest value.
\<close>

fun dict_set :: "string \<Rightarrow> int \<Rightarrow> (string \<times> int) list \<Rightarrow> (string \<times> int) list" where
  "dict_set k v [] = [(k, v)]"
| "dict_set k v ((k', v') # d) = (if k' = k then (k, v) # d else (k', v') # dict_set k v d)"

fun max_key :: "string \<times> int \<Rightarrow> (string \<times> int) list \<Rightarrow> string" where
  "max_key best [] = fst best"
| "max_key best (kv # d) = (if snd kv > snd best then max_key kv d else max_key best d)"

definition img_elements :: "node \<Rightarrow> node list" where
  "img_elements doc =
     filter (\<lambda>n. tag n = ''img'' \<and> contains_str ''/ape/uploads/'' (attribute n ''src''))
       (elements doc)"

definition src_accepted :: "string \<Rightarrow> bool" where
  "src_accepted s =
     (s \<noteq> [] \<and> contains_str ''akamaihd.net'' s \<and> contains_str ''/ape/uploads/'' s
      \<and> \<not> contains_str ''icon-crown'' s)"

fun collect_images :: "node list \<Rightarrow> (string \<times> int) list \<Rightarrow> error + (string \<times> int) list" where
  "collect_images [] unique_images = Inr unique_images"
| "collect_images (img # imgs) unique_images =
     (case get_attribute img ''src'' of
        Inl err \<Rightarrow> Inl err
      | Inr None \<Rightarrow> collect_images imgs unique_images
      | Inr (Some src) \<Rightarrow>
          if src_accepted src then
            (case size_of img of
               Inl err \<Rightarrow> collect_images imgs (dict_set src 0 unique_images)
             | Inr (width, height) \<Rightarrow>
                 if width > 100 \<and> height > 100
                 then collect_images imgs (dict_set src (width * height) unique_images)
                 else collect_images imgs unique_images)
          else collect_images imgs unique_images)"

definition resolve_image :: "node \<Rightarrow> string option" where
  "resolve_image doc =
     (case collect_images (img_elements doc) [] of
        Inl err \<Rightarrow> None
      | Inr [] \<Rightarrow> None
      | Inr (kv # d) \<Rightarrow> Some (max_key kv d))"

text \<open>
  The link of an item container (lines 93 to 98 and 378 to 383): the first
  \<open>.//a[@href]\<close> whose address contains \<open>/crownstore/item/\<close>.
\<close>

definition link_elements :: "node \<Rightarrow> error + node list" where
  "link_elements c =
     (if stale c then Inl StaleElementReference
      else Inr (filter (\<lambda>n. tag n = ''a'' \<and> map_of (attrs n) ''href'' \<noteq> None) (descendants c)))"

fun first_item_link :: "node list \<Rightarrow> error + string option" where
  "first_item_link [] = Inr None"
| "first_item_link (l # ls) =
     (case get_attribute l ''href'' of
        Inl err \<Rightarrow> Inl err
      | Inr None \<Rightarrow> first_item_link ls
      | Inr (Some href) \<Rightarrow>
          if href \<noteq> [] \<and> contains_str ''/crownstore/item/'' href then Inr (Some href)
          else first_item_link ls)"

text \<open>
  The target address (lines 86 to 104). Without \<open>item_url\<close> the address comes from the
  container; any exception there is swallowed and leaves it \<open>None\<close>, a container that
  is Python's \<open>None\<close> included. The address found is never empty, so that the test of
  line 103 is the case \<open>None\<close>.
\<close>

definition target_url_of :: "node option \<Rightarrow> string option \<Rightarrow> string option" where
  "target_url_of item_container item_url =
     (if truthy item_url then item_url
      else case item_container of
        None \<Rightarrow> None
      | Some c \<Rightarrow>
          (case link_elements c of
             Inl err \<Rightarrow> None
           | Inr ls \<Rightarrow> (case first_item_link ls of Inl err \<Rightarrow> None | Inr t \<Rightarrow> t)))"

text \<open>
  \<open>extract_item_details\<close>. \<open>web\<close> is what \<open>driver.get\<close> and the wait for the body
  give for an address: an error, or the rendered document. \<open>now\<close> is the formatted
  clock reading. The result is \<open>None\<close> where the function returns \<open>None\<close>.
\<close>

definition extract_item_details ::
  "(string \<Rightarrow> error + node) \<Rightarrow> string \<Rightarrow> node option \<Rightarrow> string \<Rightarrow> string option \<Rightarrow> item option" where
  "extract_item_details web now item_container cat_url item_url =
     (case target_url_of item_container item_url of
        None \<Rightarrow> None
      | Some target_url \<Rightarrow>
          (case web target_url of
             Inl err \<Rightarrow> None
           | Inr doc \<Rightarrow>
               if free_markers doc = [] then None
               else
                 (let found = loyalty_loop (free_markers doc);
                      is_eso_plus_free_found = (if eso_plus_free_text doc \<noteq> [] then True else found)
                  in case resolve_name doc name_selectors of
                       Inl err \<Rightarrow> None
                     | Inr None \<Rightarrow> None
                     | Inr (Some item_name) \<Rightarrow>
                         Some \<lparr>name = item_name, url = target_url, category_url = cat_url,
                               image_url = resolve_image doc,
                               is_eso_plus_free = is_eso_plus_free_found,
                               found_date = now\<rparr>)))"

section \<open>Page discovery\<close>

definition root_url :: string where
  "root_url = ''https://www.elderscrollsonline.com/en-us/crownstore''"

text \<open>
  The loop over the links of the root page (lines 61 to 67): a link whose address cannot
  be read is passed over.
\<close>

fun collect_links :: "node list \<Rightarrow> string list \<Rightarrow> string list" where
  "collect_links [] urls = urls"
| "collect_links (l # ls) urls =
     (case get_attribute l ''href'' of
        Inl err \<Rightarrow> collect_links ls urls
      | Inr None \<Rightarrow> collect_links ls urls
      | Inr (Some href) \<Rightarrow>
          if href \<noteq> [] \<and> startswith href root_url then collect_links ls (set_add href urls)
          else collect_links ls urls)"

text \<open>
  \<open>get_all_crownstore_urls\<close>: \<open>web root_url\<close> is an error when loading the root page,
  waiting for it or enumerating its links raises.
\<close>

definition get_all_crownstore_urls :: "(string \<Rightarrow> error + node) \<Rightarrow> string list" where
  "get_all_crownstore_urls web =
     (case web root_url of
        Inl err \<Rightarrow> [root_url]
      | Inr doc \<Rightarrow>
          set_add root_url (collect_links (filter (\<lambda>n. tag n = ''a'') (elements doc)) []))"

definition priority_urls :: "string list" where
  "priority_urls =
     [''https://www.elderscrollsonline.com/en-us/crownstore/category/159'',
      ''https://www.elderscrollsonline.com/en-us/crownstore/category/78'',
      ''https://www.elderscrollsonline.com/en-us/crownstore/category/78#quest-starters'',
      ''https://www.elderscrollsonline.com/en-us/crownstore/category/78#currency'',
      ''https://www.elderscrollsonline.com/en-us/crownstore/category/71'',
      ''https://www.elderscrollsonline.com/en-us/crownstore/category/1'',
      ''https://www.elderscrollsonline.com/en-us/crownstore/eso-plus'']"

text \<open>Lines 350 and 351.\<close>

definition urls_to_check :: "string list \<Rightarrow> string list" where
  "urls_to_check all_urls = priority_urls @ filter (\<lambda>url. url \<notin> set priority_urls) all_urls"

section \<open>The Ledger file and the notification channel\<close>

text \<open>
  The text that \<open>json.dump(list(posted_items), f, indent=2)\<close> writes for a list of
  strings: the empty list is \<open>[]\<close>; otherwise an opening bracket, each string on a
  line of its own after two spaces, a comma after every string but the last, and the
  closing bracket on a last line. A string is written between double quotes; the
  quote, the backslash and the characters 0x08, 0x09, 0x0A, 0x0C and 0x0D have their
  two-character escapes, the other characters from 0x20 to 0x7E stand for themselves,
  and every other character is written \<open>\\u00\<close> and its two hexadecimal digits.
\<close>

definition hex_digit :: "nat \<Rightarrow> char" where
  "hex_digit d = (if d < 16 then ''0123456789abcdef'' ! d else CHR ''0'')"

definition hex_val :: "char \<Rightarrow> nat option" where
  "hex_val c =
     map_of (zip ''0123456789abcdefABCDEF''
       [0, 1, 2, 3, 4, 5, 6, 7, 8, 9, 10, 11, 12, 13, 14, 15, 10, 11, 12, 13, 14, 15]) c"

definition escape_char :: "char \<Rightarrow> string" where
  "escape_char c =
     (if c = CHR 0x22 then [CHR 0x5C, CHR 0x22]
      else if c = CHR 0x5C then [CHR 0x5C, CHR 0x5C]
      else if c = CHR 0x0A then [CHR 0x5C, CHR ''n'']
      else if c = CHR 0x0D then [CHR 0x5C, CHR ''r'']
      else if c = CHR 0x09 then [CHR 0x5C, CHR ''t'']
      else if c = CHR 0x08 then [CHR 0x5C, CHR ''b'']
      else if c = CHR 0x0C then [CHR 0x5C, CHR ''f'']
      else if 32 \<le> (of_char c :: nat) \<and> (of_char c :: nat) \<le> 126 then [c]
      else [CHR 0x5C, CHR ''u'', CHR ''0'', CHR ''0'',
            hex_digit (of_char c div 16), hex_digit (of_char c mod 16)])"

definition encode_string :: "string \<Rightarrow> string" where
  "encode_string s = CHR 0x22 # concat (map escape_char s) @ [CHR 0x22]"

definition separator :: string where
  "separator = [CHR '','', CHR 0x0A, CHR '' '', CHR '' '']"

definition json_dumps :: "string list \<Rightarrow> string" where
  "json_dumps xs =
     (case xs of
        [] \<Rightarrow> ''[]''
      | x # ys \<Rightarrow>
          [CHR ''['', CHR 0x0A, CHR '' '', CHR '' ''] @ encode_string x
            @ concat (map (\<lambda>y. separator @ encode_string y) ys) @ [CHR 0x0A, CHR '']''])"

text \<open>
  The reading of such a text by \<open>json.load\<close>: JSON white space is skipped around the
  brackets, the strings and the commas; in a string an escape is decoded, a character
  below 0x20 is refused, and nothing but white space may follow the closing bracket.
  \<open>json_array_of_strings\<close> gives the strings of a text that is a JSON array of
  strings, and \<open>None\<close> for every other text. It is used only on the texts the
  program writes, and texts of other JSON values are not among them.
\<close>

definition unescape :: "char \<Rightarrow> char option" where
  "unescape e =
     map_of [(CHR 0x22, CHR 0x22), (CHR 0x5C, CHR 0x5C), (CHR ''/'', CHR ''/''),
             (CHR ''b'', CHR 0x08), (CHR ''f'', CHR 0x0C), (CHR ''n'', CHR 0x0A),
             (CHR ''r'', CHR 0x0D), (CHR ''t'', CHR 0x09)] e"

definition hex4 :: "char \<Rightarrow> char \<Rightarrow> char \<Rightarrow> char \<Rightarrow> nat option" where
  "hex4 a b c d =
     (case (hex_val a, hex_val b, hex_val c, hex_val d) of
        (Some i, Some j, Some k, Some l) \<Rightarrow> Some (((i * 16 + j) * 16 + k) * 16 + l)
      | _ \<Rightarrow> None)"

definition push :: "char \<Rightarrow> (string \<times> string) option \<Rightarrow> (string \<times> string) option" where
  "push c r = (case r of None \<Rightarrow> None | Some (s, rest) \<Rightarrow> Some (c # s, rest))"

fun parse_body :: "string \<Rightarrow> (string \<times> string) option" where
  "parse_body [] = None"
| "parse_body (c # cs) =
     (if c = CHR 0x22 then Some ([], cs)
      else if c = CHR 0x5C then
        (case cs of
           [] \<Rightarrow> None
         | e # cs' \<Rightarrow>
             if e = CHR ''u'' then
               (case cs' of
                  h1 # h2 # h3 # h4 # rest \<Rightarrow>
                    (case hex4 h1 h2 h3 h4 of
                       None \<Rightarrow> None
                     | Some n \<Rightarrow> if n < 256 then push (char_of n) (parse_body rest) else None)
                | _ \<Rightarrow> None)
             else
               (case unescape e of
                  None \<Rightarrow> None
                | Some d \<Rightarrow> push d (parse_body cs')))
      else if (of_char c :: nat) < 32 then None
      else push c (parse_body cs))"

definition json_ws :: "char \<Rightarrow> bool" where
  "json_ws c = (c \<in> set [CHR '' '', CHR 0x09, CHR 0x0A, CHR 0x0D])"

definition skip_ws :: "string \<Rightarrow> string" where
  "skip_ws s = dropWhile json_ws s"

function parse_elems :: "string \<Rightarrow> string list option" where
  "parse_elems s =
     (case skip_ws s of
        [] \<Rightarrow> None
      | c # cs \<Rightarrow>
          if c = CHR 0x22 then
            (case parse_body cs of
               None \<Rightarrow> None
             | Some (x, r) \<Rightarrow>
                 (case skip_ws r of
                    [] \<Rightarrow> None
                  | d # ds \<Rightarrow>
                      if d = CHR '','' then map_option (Cons x) (parse_elems ds)
                      else if d = CHR '']'' then (if skip_ws ds = [] then Some [x] else None)
                      else None))
          else None)"
  by pat_completeness auto
termination
proof (relation "measure length", goal_cases)
  case 1
  then show ?case by simp
next
  case (2 s c cs p x r d ds)
  have shorter: "parse_body t = Some (y, u) \<Longrightarrow> length u < length t" for t y u
  proof (induction t arbitrary: y u rule: parse_body.induct)
    case 1
    then show ?case by simp
  next
    case (2 c cs)
    then show ?case
      by (auto simp: push_def split: if_splits list.splits option.splits) fastforce+
  qed
  have skip: "length (skip_ws t) \<le> length t" for t
    by (simp add: skip_ws_def length_dropWhile_le)
  have "length ds < length (skip_ws r)" using 2 by simp
  also have "\<dots> \<le> length r" by (rule skip)
  also have "\<dots> < length cs" using 2 shorter by metis
  also have "\<dots> < length (skip_ws s)" using 2 by simp
  also have "\<dots> \<le> length s" by (rule skip)
  finally show ?case by simp
qed

definition json_array_of_strings :: "string \<Rightarrow> string list option" where
  "json_array_of_strings text =
     (case skip_ws text of
        [] \<Rightarrow> None
      | c # cs \<Rightarrow>
          if c = CHR ''['' then
            (case skip_ws cs of
               [] \<Rightarrow> None
             | d # ds \<Rightarrow>
                 if d = CHR '']'' then (if skip_ws ds = [] then Some [] else None)
                 else parse_elems cs)
          else None)"


text \<open>
  The Ledger file \<open>posted_items.json\<close> as \<open>load_posted_items\<close> finds it: the file
  is absent, or \<open>set(json.load(f))\<close> raises on it, or it holds a JSON array of
  strings. \<open>read_back\<close> is what a written text is found to be.
\<close>

datatype ledger_file = Absent | Unparsable | Stored "string list"

definition read_back :: "string \<Rightarrow> ledger_file" where
  "read_back text =
     (case json_array_of_strings text of None \<Rightarrow> Unparsable | Some xs \<Rightarrow> Stored xs)"

text \<open>
  How the write of lines 317 and 318 ends: the text is written; or \<open>open\<close> raises and
  the file is left as it was; or \<open>open\<close> has emptied the file and the write raises
  before the text is complete, which leaves a text that is not JSON. The handler of
  lines 319 and 320 logs either failure and the function returns.
\<close>

datatype write_outcome = Written | OpenFailed | WriteFailed

text \<open>
  The files of the program: the Ledger file, how its next write ends, and the output
  artifact \<open>eso-free-items.json\<close>, which holds the item list of the last run once
  written.
\<close>

record files =
  posted_file :: ledger_file
  posted_write :: write_outcome
  output_file :: "item list option"

definition load_posted_items :: "files \<Rightarrow> string list" where
  "load_posted_items fs =
     (case posted_file fs of
        Absent \<Rightarrow> []
      | Unparsable \<Rightarrow> []
      | Stored xs \<Rightarrow> remdups xs)"

definition save_posted_items :: "string list \<Rightarrow> files \<Rightarrow> files" where
  "save_posted_items posted_items fs =
     (case posted_write fs of
        Written \<Rightarrow> fs\<lparr>posted_file := read_back (json_dumps posted_items)\<rparr>
      | OpenFailed \<Rightarrow> fs
      | WriteFailed \<Rightarrow> fs\<lparr>posted_file := Unparsable\<rparr>)"

text \<open>
  \<open>send_item_to_discord\<close>: \<open>post\<close> is \<open>requests.post\<close>, giving the status code of
  the response or an error. Every error is caught; the result is the returned bool.
\<close>

definition webhook_url :: string where
  "webhook_url = ''https://discord.com/api/webhooks/1390384861101035600/gehtJILtdByfCLmW-pmLYc8haQlBsYLzPBxKqfsoQAfdoDPMK5c1fR6CpkVB7JVAnJ7S''"

definition message :: "item \<Rightarrow> string" where
  "message item_details =
     ''**'' @ name item_details @ '' - ''
       @ (if is_eso_plus_free item_details then ''FREE with ESO Plus!'' else ''FREE!'')
       @ ''**'' @ [CHR 0x0A] @ url item_details"

definition send_item_to_discord :: "(string \<Rightarrow> string \<Rightarrow> error + nat) \<Rightarrow> item \<Rightarrow> string \<Rightarrow> bool" where
  "send_item_to_discord post item_details hook =
     (case post hook (message item_details) of
        Inl err \<Rightarrow> False
      | Inr status_code \<Rightarrow> status_code = 204)"

section \<open>The run\<close>

text \<open>
  The collaborators of one run: the pages the browser renders, the notification
  channel and the clock.
\<close>

record env =
  web :: "string \<Rightarrow> error + node"
  post :: "string \<Rightarrow> string \<Rightarrow> error + nat"
  now :: string

text \<open>
  The variables of \<open>scrape_free_items\<close>, with two traces of its effects: \<open>sent\<close> lists
  the calls of \<open>send_item_to_discord\<close> with their results, \<open>events\<close> the log lines
  \<open>Found FREE item\<close> and \<open>Skipping already posted item\<close>, one of which is written for
  every item that \<open>extract_item_details\<close> returns.
\<close>

datatype event = FoundFreeItem item | SkippingPosted item

record state =
  free_items :: "item list"
  processed_urls :: "string list"
  new_posted_items :: "string list"
  sent :: "(item \<times> bool) list"
  events :: "event list"

definition item_id :: "item \<Rightarrow> string" where
  "item_id item_details = name item_details @ ''-'' @ str_bool (is_eso_plus_free item_details)"

text \<open>
  The item container of a \<open>FREE!\<close> element on a listing page (line 375):
  \<open>find_element\<close> returns the first match of the ancestor axis in document order, that
  is the outermost one, and raises when there is none.
\<close>

definition is_container :: "node \<Rightarrow> bool" where
  "is_container n =
     (contains_str ''item'' (attribute n ''class'') \<or> contains_str ''product'' (attribute n ''class'')
      \<or> contains_str ''card'' (attribute n ''class''))"

definition find_container :: "handle \<Rightarrow> error + node" where
  "find_container h =
     (if stale (fst h) then Inl StaleElementReference
      else case filter is_container (rev (snd h)) of
        [] \<Rightarrow> Inl NoSuchElement
      | c # cs \<Rightarrow> Inr c)"

text \<open>Lines 371 to 387: the page-local set of detail-page addresses.\<close>

fun collect_item_urls :: "handle list \<Rightarrow> string list \<Rightarrow> string list" where
  "collect_item_urls [] item_urls = item_urls"
| "collect_item_urls (element # free_elements) item_urls =
     (case find_container element of
        Inl err \<Rightarrow> collect_item_urls free_elements item_urls
      | Inr item_container \<Rightarrow>
          (case link_elements item_container of
             Inl err \<Rightarrow> collect_item_urls free_elements item_urls
           | Inr ls \<Rightarrow>
               (case first_item_link ls of
                  Inl err \<Rightarrow> collect_item_urls free_elements item_urls
                | Inr None \<Rightarrow> collect_item_urls free_elements item_urls
                | Inr (Some href) \<Rightarrow> collect_item_urls free_elements (set_add href item_urls))))"

text \<open>Lines 390 to 420: one detail-page address of a listing page.\<close>

definition process_item :: "env \<Rightarrow> string list \<Rightarrow> string \<Rightarrow> state \<Rightarrow> string \<Rightarrow> state" where
  "process_item e posted_items listing_url s item_url =
     (if item_url \<in> set (processed_urls s) then s
      else
        (let s1 = s\<lparr>processed_urls := set_add item_url (processed_urls s)\<rparr> in
         case extract_item_details (web e) (now e) None listing_url (Some item_url) of
           None \<Rightarrow> s1
         | Some item_details \<Rightarrow>
             if item_id item_details \<notin> set posted_items then
               s1\<lparr>free_items := free_items s1 @ [item_details],
                   new_posted_items := set_add (item_id item_details) (new_posted_items s1),
                   events := events s1 @ [FoundFreeItem item_details],
                   sent := sent s1
                     @ [(item_details, send_item_to_discord (post e) item_details webhook_url)]\<rparr>
             else s1\<lparr>events := events s1 @ [SkippingPosted item_details]\<rparr>))"

text \<open>Lines 355 to 424: one listing page; a page that fails to load is passed over.\<close>

definition check_url :: "env \<Rightarrow> string list \<Rightarrow> state \<Rightarrow> string \<Rightarrow> state" where
  "check_url e posted_items s listing_url =
     (case web e listing_url of
        Inl err \<Rightarrow> s
      | Inr doc \<Rightarrow>
          foldl (process_item e posted_items listing_url) s
            (collect_item_urls (free_markers doc) []))"

text \<open>
  \<open>scrape_free_items\<close>: \<open>sweep\<close> is the state when the loop over the pages has ended;
  the function saves the Ledger and returns the item list, and the model returns with
  the list the files after the save. \<open>main\<close> writes the list to the output artifact.
\<close>

definition sweep :: "env \<Rightarrow> files \<Rightarrow> state" where
  "sweep e fs =
     (let posted_items = load_posted_items fs;
          s0 = \<lparr>free_items = [], processed_urls = [], new_posted_items = posted_items,
                sent = [], events = []\<rparr>
      in foldl (check_url e posted_items) s0 (urls_to_check (get_all_crownstore_urls (web e))))"

definition scrape_free_items :: "env \<Rightarrow> files \<Rightarrow> item list \<times> files" where
  "scrape_free_items e fs =
     (free_items (sweep e fs), save_posted_items (new_posted_items (sweep e fs)) fs)"

definition main :: "env \<Rightarrow> files \<Rightarrow> files" where
  "main e fs =
     (case scrape_free_items e fs of
        (items, fs') \<Rightarrow> fs'\<lparr>output_file := Some items\<rparr>)"

text \<open>The items that \<open>extract_item_details\<close> returned during a run, in order.\<close>

fun classified :: "event list \<Rightarrow> item list" where
  "classified [] = []"
| "classified (FoundFreeItem i # evs) = i # classified evs"
| "classified (SkippingPosted i # evs) = i # classified evs"

section \<open>Notions used to state the properties\<close>

text \<open>
  The entry that one live image writes into \<open>unique_images\<close>, read off the tree: its
  address and area when the address passes the filter of lines 242 to 245 and both
  sides are over 100 pixels, its address and 0 when the address passes and the size
  cannot be read, and none otherwise. \<open>entries\<close> lists the entries of a page in document
  order; \<open>recorded_area\<close> is the area of the last entry with a given address.
\<close>

definition recorded :: "node \<Rightarrow> (string \<times> int) option" where
  "recorded img =
     (case map_of (attrs img) ''src'' of
        None \<Rightarrow> None
      | Some src \<Rightarrow>
          if src_accepted src then
            (case rect img of
               None \<Rightarrow> Some (src, 0)
             | Some (width, height) \<Rightarrow>
                 if width > 100 \<and> height > 100 then Some (src, width * height) else None)
          else None)"

definition entries :: "node \<Rightarrow> (string \<times> int) list" where
  "entries doc = List.map_filter recorded (img_elements doc)"

definition recorded_area :: "node \<Rightarrow> string \<Rightarrow> int option" where
  "recorded_area doc src = map_of (rev (entries doc)) src"

definition assign :: "(string \<times> int) list \<Rightarrow> string \<times> int \<Rightarrow> (string \<times> int) list" where
  "assign d kv = dict_set (fst kv) (snd kv) d"

text \<open>
  What holds of the variables of \<open>scrape_free_items\<close> after every step, for the Ledger
  \<open>posted\<close> loaded at the start.
\<close>

definition run_inv :: "string list \<Rightarrow> state \<Rightarrow> bool" where
  "run_inv posted s =
     (free_items s = filter (\<lambda>i. item_id i \<notin> set posted) (classified (events s))
      \<and> set (new_posted_items s) = set posted \<union> item_id ` set (free_items s)
      \<and> map fst (sent s) = free_items s)"

text \<open>Two states that agree on everything but the trace of deliveries.\<close>

definition same_but_sent :: "state \<Rightarrow> state \<Rightarrow> bool" where
  "same_but_sent s s' =
     (free_items s = free_items s' \<and> processed_urls s = processed_urls s'
      \<and> new_posted_items s = new_posted_items s' \<and> events s = events s')"

section \<open>Example pages and runs\<close>

definition ex_u1 :: string where
  "ex_u1 = ''https://www.elderscrollsonline.com/en-us/crownstore/item/101''"

definition ex_u2 :: string where
  "ex_u2 = ''https://www.elderscrollsonline.com/en-us/crownstore/item/102''"

text \<open>A listing page with two cards, each a \<open>FREE!\<close> offer linking to a detail page.\<close>

definition ex_card :: "string \<Rightarrow> node" where
  "ex_card u =
     Elem ''div'' [(''class'', ''crown-store-item'')] False [] None
       [Elem ''a'' [(''href'', u)] False ''Mount'' None [Text ''Mount''],
        Elem ''span'' [] False ''FREE!'' None [Text ''FREE!'']]"

definition ex_listing :: node where
  "ex_listing = Elem ''body'' [] False [] None [ex_card ex_u1, ex_card ex_u2]"

text \<open>A detail page of an item called Mount that is free for everyone.\<close>

definition ex_detail :: node where
  "ex_detail =
     Elem ''body'' [] False [] None
       [Elem ''h1'' [] False ''Mount'' None [Text ''Mount''],
        Elem ''span'' [(''class'', ''price'')] False ''FREE!'' None [Text ''FREE!'']]"

text \<open>
  A storefront whose root page is the listing and whose two detail pages both show the
  item Mount; every other address fails to load.
\<close>

definition ex_web :: "string \<Rightarrow> error + node" where
  "ex_web u =
     (if u = root_url then Inr ex_listing
      else if u = ex_u1 \<or> u = ex_u2 then Inr ex_detail
      else Inl WebDriverError)"

text \<open>A storefront that renders one page for every address, and one that is down.\<close>

definition ex_serving :: "node \<Rightarrow> string \<Rightarrow> error + node" where
  "ex_serving doc u = Inr doc"

definition ex_down :: "string \<Rightarrow> error + node" where
  "ex_down u = Inl WebDriverError"

definition ex_env :: env where
  "ex_env = \<lparr>web = ex_web, post = (\<lambda>hook content. Inr 204), now = ''2025-07-01 06:00:00''\<rparr>"

definition ex_env_down :: env where
  "ex_env_down =
     \<lparr>web = ex_web, post = (\<lambda>hook content. Inl RequestError), now = ''2025-07-01 06:00:00''\<rparr>"

definition ex_fs_new :: files where
  "ex_fs_new = \<lparr>posted_file = Absent, posted_write = Written, output_file = None\<rparr>"

definition ex_fs_seen :: files where
  "ex_fs_seen =
     \<lparr>posted_file = Stored [''Mount-False''], posted_write = Written, output_file = None\<rparr>"

text \<open>The same files when the Ledger cannot be written.\<close>

definition ex_fs_new_locked :: files where
  "ex_fs_new_locked = \<lparr>posted_file = Absent, posted_write = OpenFailed, output_file = None\<rparr>"

definition ex_fs_seen_failing :: files where
  "ex_fs_seen_failing =
     \<lparr>posted_file = Stored [''Mount-False''], posted_write = WriteFailed, output_file = None\<rparr>"

definition ex_fs_corrupt :: files where
  "ex_fs_corrupt = \<lparr>posted_file = Unparsable, posted_write = Written, output_file = None\<rparr>"

definition ex_item :: "string \<Rightarrow> item" where
  "ex_item u =
     \<lparr>name = ''Mount'', url = u, category_url = root_url, image_url = None,
      is_eso_plus_free = False, found_date = ''2025-07-01 06:00:00''\<rparr>"

text \<open>
  A detail page whose \<open>FREE!\<close> marker sits inside a loyalty block, next to an unrelated
  block that mentions the subscription deal.
\<close>

definition ex_detail_plus :: node where
  "ex_detail_plus =
     Elem ''body'' [] False [] None
       [Elem ''h1'' [] False ''Mount'' None [Text ''Mount''],
        Elem ''div'' [(''class'', ''price eso-plus-loyalty'')] False [] None
          [Elem ''span'' [] False ''FREE!'' None [Text ''FREE!'']],
        Elem ''p'' [] False ''With ESO Plus Deal'' None [Text ''With ESO Plus Deal'']]"

definition ex_item_plus :: item where
  "ex_item_plus =
     \<lparr>name = ''Mount'', url = ex_u1, category_url = root_url, image_url = None,
      is_eso_plus_free = True, found_date = ''2025-07-01 06:00:00''\<rparr>"

text \<open>The same page when the handle of the marker has gone stale.\<close>

definition ex_stale_marker :: node where
  "ex_stale_marker = Elem ''span'' [] True ''FREE!'' None [Text ''FREE!'']"

definition ex_detail_stale :: node where
  "ex_detail_stale =
     Elem ''body'' [] False [] None
       [Elem ''h1'' [] False ''Mount'' None [Text ''Mount''],
        Elem ''div'' [(''class'', ''price eso-plus-loyalty'')] False [] None [ex_stale_marker]]"

text \<open>
  A detail page with a free-for-all marker and a paragraph whose text has both phrases,
  but in its second text child: the first text child of the paragraph has neither.
\<close>

definition ex_later_text :: node where
  "ex_later_text =
     Elem ''p'' [] False ''Offer: FREE! With ESO Plus Deal'' None
       [Text ''Offer:'', Elem ''br'' [] False [] None [], Text '' FREE! With ESO Plus Deal'']"

definition ex_detail_later :: node where
  "ex_detail_later =
     Elem ''body'' [] False [] None
       [Elem ''h1'' [] False ''Mount'' None [Text ''Mount''],
        Elem ''span'' [] False ''FREE!'' None [Text ''FREE!''],
        ex_later_text]"

text \<open>A detail page without a marker, and one whose only heading is storefront chrome.\<close>

definition ex_not_free :: node where
  "ex_not_free =
     Elem ''body'' [] False [] None
       [Elem ''h1'' [] False ''Mount'' None [Text ''Mount''],
        Elem ''span'' [] False ''1,200 Crowns'' None [Text ''1,200 Crowns'']]"

text \<open>
  A detail page whose heading is two letters between characters that \<open>strip()\<close>
  removes: two unit separators before, a no-break space and a next-line character after.
\<close>

definition ex_short_name :: node where
  "ex_short_name =
     Elem ''body'' [] False [] None
       [Elem ''h1'' [] False [CHR 0x1F, CHR 0x1F, CHR ''a'', CHR ''b'', CHR 0xA0, CHR 0x85] None
          [Text ''ab''],
        Elem ''span'' [] False ''FREE!'' None [Text ''FREE!'']]"

definition ex_chrome_only :: node where
  "ex_chrome_only =
     Elem ''body'' [] False [] None
       [Elem ''h1'' [] False ''Crown Store'' None [Text ''Crown Store''],
        Elem ''h2'' [] False ''ab'' None [Text ''ab''],
        Elem ''span'' [] False ''FREE!'' None [Text ''FREE!'']]"

text \<open>
  Detail pages with images: three images of 50 by 50, 150 by 150 and 300 by 200 pixels
  on the asset host; one large image under the asset path on another host; one image on
  the asset host whose size cannot be read.
\<close>

definition ex_img :: "string \<Rightarrow> (int \<times> int) option \<Rightarrow> node" where
  "ex_img src wh = Elem ''img'' [(''src'', src)] False [] wh []"

definition ex_page_with :: "node list \<Rightarrow> node" where
  "ex_page_with imgs =
     Elem ''body'' [] False [] None
       ([Elem ''h1'' [] False ''Mount'' None [Text ''Mount''],
         Elem ''span'' [] False ''FREE!'' None [Text ''FREE!'']] @ imgs)"

definition ex_gallery :: node where
  "ex_gallery =
     ex_page_with
       [ex_img ''https://esosslfiles-a.akamaihd.net/ape/uploads/small.png'' (Some (50, 50)),
        ex_img ''https://esosslfiles-a.akamaihd.net/ape/uploads/medium.png'' (Some (150, 150)),
        ex_img ''https://esosslfiles-a.akamaihd.net/ape/uploads/large.png'' (Some (300, 200))]"

definition ex_off_host :: node where
  "ex_off_host =
     ex_page_with [ex_img ''https://images.example.com/ape/uploads/large.png'' (Some (300, 200))]"

definition ex_unreadable :: node where
  "ex_unreadable =
     ex_page_with [ex_img ''https://esosslfiles-a.akamaihd.net/ape/uploads/large.png'' None]"

text \<open>A root page that links to a priority address and to a detail page.\<close>

definition ex_root :: node where
  "ex_root =
     Elem ''body'' [] False [] None
       [Elem ''a'' [(''href'', ''https://www.elderscrollsonline.com/en-us/crownstore/category/159'')]
          False ''Companions'' None [Text ''Companions''],
        Elem ''a'' [(''href'', ex_u1)] False ''Mount'' None [Text ''Mount''],
        Elem ''a'' [(''href'', ''https://www.elderscrollsonline.com/en-us/news'')]
          False ''News'' None [Text ''News'']]"

section \<open>Page discovery and the order of the sweep\<close>

lemma set_set_add: "set (set_add x s) = insert x (set s)"
  by (auto simp: set_add_def)

lemma distinct_set_add: "distinct s \<Longrightarrow> distinct (set_add x s)"
  by (simp add: set_add_def)

lemma distinct_collect_links: "distinct urls \<Longrightarrow> distinct (collect_links ls urls)"
  by (induction ls urls rule: collect_links.induct)
    (auto simp: distinct_set_add split: sum.splits option.splits)

lemma distinct_discovered: "distinct (get_all_crownstore_urls w)"
  by (auto simp: get_all_crownstore_urls_def distinct_set_add distinct_collect_links
      split: sum.splits)

lemma distinct_priority_urls: "distinct priority_urls"
  by (simp add: priority_urls_def)

lemma discovered_fallback_example:
  "get_all_crownstore_urls ex_down = [root_url]"
  by code_simp

lemma discovered_no_links_example:
  "get_all_crownstore_urls (ex_serving ex_detail) = [root_url]"
  by code_simp

lemma discovered_example:
  "get_all_crownstore_urls (ex_serving ex_root) =
     [''https://www.elderscrollsonline.com/en-us/crownstore/category/159'', ex_u1, root_url]"
  by code_simp

text \<open>
  C7. When loading the root page or enumerating its links fails, the discovered list is
  exactly the one-element list of the root address; when it succeeds, the root address
  is in the discovered list, whatever links were found. (A single link whose address
  cannot be read is passed over by the loop and is no failure of the enumeration.)
\<close>

theorem discovery_fallback:
  "(w root_url = Inl err \<longrightarrow> get_all_crownstore_urls w = [root_url])
   \<and> (w root_url = Inr doc \<longrightarrow> root_url \<in> set (get_all_crownstore_urls w))"
  by (simp add: get_all_crownstore_urls_def set_set_add)

theorem discovery_fallback_witness:
  "get_all_crownstore_urls ex_down = [root_url]
   \<and> root_url \<in> set (get_all_crownstore_urls (ex_serving ex_detail))"
proof -
  have "get_all_crownstore_urls ex_down = [root_url]"
    using discovery_fallback [of ex_down WebDriverError] by (simp add: ex_down_def)
  moreover have "root_url \<in> set (get_all_crownstore_urls (ex_serving ex_detail))"
    using discovery_fallback [of "ex_serving ex_detail" _ ex_detail] by (simp add: ex_serving_def)
  ultimately show ?thesis by simp
qed

text \<open>
  C9. The pages inspected are the fixed priority list followed by the discovered
  addresses that are not in it, in their discovered order; when the discovered list has
  no duplicates the inspected list has none, so that an address in both lists stands
  only at its priority position; and the list that discovery returns has no duplicates.
\<close>

theorem urls_to_check_order:
  "take (length priority_urls) (urls_to_check all_urls) = priority_urls
   \<and> drop (length priority_urls) (urls_to_check all_urls)
       = filter (\<lambda>url. url \<notin> set priority_urls) all_urls
   \<and> (distinct all_urls \<longrightarrow> distinct (urls_to_check all_urls))
   \<and> distinct (get_all_crownstore_urls w)"
  by (auto simp: urls_to_check_def distinct_priority_urls distinct_discovered)

theorem urls_to_check_order_witness:
  "urls_to_check (get_all_crownstore_urls (ex_serving ex_root)) = priority_urls @ [ex_u1, root_url]
   \<and> distinct (urls_to_check (get_all_crownstore_urls (ex_serving ex_root)))"
proof -
  have d: "distinct (get_all_crownstore_urls (ex_serving ex_root))"
    using urls_to_check_order [of "[]" "ex_serving ex_root"] by simp
  have "distinct (urls_to_check (get_all_crownstore_urls (ex_serving ex_root)))"
    using urls_to_check_order [of "get_all_crownstore_urls (ex_serving ex_root)" "ex_serving ex_root"] d
    by simp
  moreover have "urls_to_check (get_all_crownstore_urls (ex_serving ex_root))
      = priority_urls @ [ex_u1, root_url]"
    unfolding discovered_example by code_simp
  ultimately show ?thesis by simp
qed

section \<open>The Ledger file\<close>

declare parse_elems.simps [simp del]

lemma hex_val_hex_digit: "d < 16 \<Longrightarrow> hex_val (hex_digit d) = Some d"
proof -
  assume "d < 16"
  then have "d \<in> set [0..<16]" by simp
  moreover have "\<forall>d\<in>set [0..<16]. hex_val (hex_digit d) = Some d" by code_simp
  ultimately show ?thesis by blast
qed

lemma hex4_byte:
  "hex4 (CHR ''0'') (CHR ''0'') (hex_digit (of_char c div 16)) (hex_digit (of_char c mod 16))
     = Some (of_char c)"
proof -
  have "(of_char c :: nat) < 256" by simp
  then have a: "(of_char c :: nat) div 16 < 16" by (simp add: less_mult_imp_div_less)
  have b: "(of_char c :: nat) mod 16 < 16" by simp
  have z: "hex_val (CHR ''0'') = Some 0" by code_simp
  show ?thesis
    by (simp add: hex4_def z hex_val_hex_digit [OF a] hex_val_hex_digit [OF b])
qed

lemma parse_body_escape: "parse_body (escape_char c @ rest) = push c (parse_body rest)"
proof -
  have u: "unescape (CHR 0x22) = Some (CHR 0x22)" "unescape (CHR 0x5C) = Some (CHR 0x5C)"
    "unescape (CHR ''n'') = Some (CHR 0x0A)" "unescape (CHR ''r'') = Some (CHR 0x0D)"
    "unescape (CHR ''t'') = Some (CHR 0x09)" "unescape (CHR ''b'') = Some (CHR 0x08)"
    "unescape (CHR ''f'') = Some (CHR 0x0C)"
    by (simp_all add: unescape_def)
  consider "c = CHR 0x22" | "c = CHR 0x5C" | "c = CHR 0x0A" | "c = CHR 0x0D" | "c = CHR 0x09"
    | "c = CHR 0x08" | "c = CHR 0x0C"
    | "c \<noteq> CHR 0x22" "c \<noteq> CHR 0x5C" "32 \<le> (of_char c :: nat)" "(of_char c :: nat) \<le> 126"
    | "c \<noteq> CHR 0x22" "c \<noteq> CHR 0x5C" "c \<noteq> CHR 0x0A" "c \<noteq> CHR 0x0D" "c \<noteq> CHR 0x09"
      "c \<noteq> CHR 0x08" "c \<noteq> CHR 0x0C" "\<not> (32 \<le> (of_char c :: nat) \<and> (of_char c :: nat) \<le> 126)"
    by blast
  then show ?thesis
  proof cases
    case 8
    then show ?thesis by (auto simp: escape_char_def)
  next
    case 9
    have lt: "(of_char c :: nat) < 256" by simp
    show ?thesis
      using 9 by (simp add: escape_char_def hex4_byte lt)
  qed (simp_all add: escape_char_def u)
qed

lemma parse_body_encode:
  "parse_body (concat (map escape_char s) @ CHR 0x22 # rest) = Some (s, rest)"
  by (induction s) (simp_all add: parse_body_escape push_def)

lemma skip_ws_quote: "skip_ws (CHR 0x22 # s) = CHR 0x22 # s"
  by (simp add: skip_ws_def json_ws_def)

lemma skip_ws_indent:
  "skip_ws (CHR 0x0A # CHR '' '' # CHR '' '' # s) = skip_ws s"
  by (simp add: skip_ws_def json_ws_def)

lemma parse_elems_items:
  "parse_elems (CHR 0x0A # CHR '' '' # CHR '' '' # encode_string x
      @ concat (map (\<lambda>y. separator @ encode_string y) ys) @ [CHR 0x0A, CHR '']''])
     = Some (x # ys)"
proof (induction ys arbitrary: x)
  case Nil
  show ?case
    by (subst parse_elems.simps)
      (simp add: skip_ws_indent skip_ws_quote encode_string_def parse_body_encode,
       simp add: skip_ws_def json_ws_def)
next
  case (Cons y ys)
  have "parse_elems (CHR 0x0A # CHR '' '' # CHR '' '' # encode_string x
      @ concat (map (\<lambda>y. separator @ encode_string y) (y # ys)) @ [CHR 0x0A, CHR '']''])
    = map_option (Cons x) (parse_elems (CHR 0x0A # CHR '' '' # CHR '' '' # encode_string y
      @ concat (map (\<lambda>y. separator @ encode_string y) ys) @ [CHR 0x0A, CHR '']'']))"
    by (subst parse_elems.simps)
      (simp add: skip_ws_indent skip_ws_quote encode_string_def parse_body_encode separator_def,
       simp add: skip_ws_def json_ws_def)
  then show ?case by (simp add: Cons.IH)
qed

lemma json_round_trip: "json_array_of_strings (json_dumps xs) = Some xs"
proof (cases xs)
  case Nil
  then show ?thesis by (simp add: json_array_of_strings_def json_dumps_def skip_ws_def json_ws_def)
next
  case (Cons x ys)
  have "json_array_of_strings (json_dumps (x # ys))
    = parse_elems (CHR 0x0A # CHR '' '' # CHR '' '' # encode_string x
      @ concat (map (\<lambda>y. separator @ encode_string y) ys) @ [CHR 0x0A, CHR '']''])"
    by (simp add: json_array_of_strings_def json_dumps_def skip_ws_def json_ws_def encode_string_def)
  then show ?thesis by (simp add: Cons parse_elems_items)
qed

lemma read_back_dumps: "read_back (json_dumps xs) = Stored xs"
  by (simp add: read_back_def json_round_trip)

lemma read_back_broken_example:
  "read_back [] = Unparsable
   \<and> read_back (take 12 (json_dumps [''Mount-False'', ''Pet-True''])) = Unparsable
   \<and> read_back (butlast (json_dumps [''Mount-False'', ''Pet-True''])) = Unparsable"
  by code_simp

lemma load_after_save:
  "posted_write fs = Written \<Longrightarrow>
     load_posted_items (save_posted_items posted fs) = remdups posted"
  by (simp add: load_posted_items_def save_posted_items_def read_back_dumps)

text \<open>
  The claim C8 fails for a save whose write fails: the call returns, and the next load
  is not the saved set. With the Ledger file not to be opened for writing, and with a
  write that breaks off, saving two identities and loading gives the empty set.
\<close>

theorem ledger_round_trip_counterexample:
  "posted_write ex_fs_new_locked = OpenFailed
   \<and> load_posted_items (save_posted_items [''Mount-False'', ''Pet-True''] ex_fs_new_locked) = []
   \<and> posted_write ex_fs_seen_failing = WriteFailed
   \<and> load_posted_items (save_posted_items [''Mount-False'', ''Pet-True''] ex_fs_seen_failing)
       = []"
  by code_simp

text \<open>
  C8, amended. The text written for a Ledger set reads back as the list of its
  members. When the write succeeds, saving a Ledger set and loading it again gives a
  set equal to the saved one (and the same list when the saved one has no duplicates);
  when the file cannot be opened for writing the files are left as they were; when the
  write breaks off the next load gives the empty set. Loading an absent or unparsable
  Ledger file gives the empty set.
\<close>

theorem ledger_round_trip:
  "json_array_of_strings (json_dumps posted) = Some posted
   \<and> (posted_write fs = Written \<longrightarrow>
        posted_file (save_posted_items posted fs) = read_back (json_dumps posted)
        \<and> set (load_posted_items (save_posted_items posted fs)) = set posted
        \<and> (distinct posted \<longrightarrow> load_posted_items (save_posted_items posted fs) = posted))
   \<and> (posted_write fs = OpenFailed \<longrightarrow> save_posted_items posted fs = fs)
   \<and> (posted_write fs = WriteFailed \<longrightarrow> load_posted_items (save_posted_items posted fs) = [])
   \<and> (posted_file fs = Absent \<or> posted_file fs = Unparsable \<longrightarrow> load_posted_items fs = [])"
proof (intro conjI impI)
  show "json_array_of_strings (json_dumps posted) = Some posted" by (rule json_round_trip)
next
  assume "posted_write fs = Written"
  then show "posted_file (save_posted_items posted fs) = read_back (json_dumps posted)"
    by (simp add: save_posted_items_def)
next
  assume "posted_write fs = Written"
  then show "set (load_posted_items (save_posted_items posted fs)) = set posted"
    by (simp add: load_after_save)
next
  assume "posted_write fs = Written" "distinct posted"
  then show "load_posted_items (save_posted_items posted fs) = posted"
    by (simp add: load_after_save)
next
  assume "posted_write fs = OpenFailed"
  then show "save_posted_items posted fs = fs" by (simp add: save_posted_items_def)
next
  assume "posted_write fs = WriteFailed"
  then show "load_posted_items (save_posted_items posted fs) = []"
    by (simp add: save_posted_items_def load_posted_items_def)
next
  assume "posted_file fs = Absent \<or> posted_file fs = Unparsable"
  then show "load_posted_items fs = []" by (auto simp: load_posted_items_def)
qed

theorem ledger_round_trip_witness:
  "load_posted_items (save_posted_items [''Mount-False'', ''Pet-True''] ex_fs_new)
     = [''Mount-False'', ''Pet-True'']
   \<and> save_posted_items [''Mount-False''] ex_fs_new_locked = ex_fs_new_locked
   \<and> load_posted_items (save_posted_items [''Mount-False''] ex_fs_seen_failing) = []
   \<and> load_posted_items ex_fs_new = []
   \<and> load_posted_items ex_fs_corrupt = []"
proof -
  have w: "posted_write ex_fs_new = Written" by (simp add: ex_fs_new_def)
  have d: "distinct [''Mount-False'', ''Pet-True'']" by simp
  have a: "load_posted_items (save_posted_items [''Mount-False'', ''Pet-True''] ex_fs_new)
      = [''Mount-False'', ''Pet-True'']"
    using ledger_round_trip [of "[''Mount-False'', ''Pet-True'']" ex_fs_new] w d by blast
  have o: "posted_write ex_fs_new_locked = OpenFailed" by (simp add: ex_fs_new_locked_def)
  have b: "save_posted_items [''Mount-False''] ex_fs_new_locked = ex_fs_new_locked"
    using ledger_round_trip [of "[''Mount-False'']" ex_fs_new_locked] o by blast
  have f: "posted_write ex_fs_seen_failing = WriteFailed" by (simp add: ex_fs_seen_failing_def)
  have c: "load_posted_items (save_posted_items [''Mount-False''] ex_fs_seen_failing) = []"
    using ledger_round_trip [of "[''Mount-False'']" ex_fs_seen_failing] f by blast
  have n: "posted_file ex_fs_new = Absent" by (simp add: ex_fs_new_def)
  have e: "load_posted_items ex_fs_new = []"
    using ledger_round_trip [of "[]" ex_fs_new] n by blast
  have u: "posted_file ex_fs_corrupt = Unparsable" by (simp add: ex_fs_corrupt_def)
  have g: "load_posted_items ex_fs_corrupt = []"
    using ledger_round_trip [of "[]" ex_fs_corrupt] u by blast
  from a b c e g show ?thesis by simp
qed

section \<open>Classification of a detail page\<close>

lemma loyalty_loop_iff:
  "loyalty_loop hs = (\<exists>h\<in>set hs. \<not> stale (fst h) \<and> loyalty_elements h \<noteq> [])"
  by (induction hs) auto

lemma loyalty_elements_iff:
  "loyalty_elements h \<noteq> [] \<longleftrightarrow> (\<exists>n\<in>set (fst h # snd h). has_loyalty_class n)"
  by (auto simp: loyalty_elements_def filter_empty_conv)

lemma eso_plus_free_text_iff:
  "eso_plus_free_text doc \<noteq> [] \<longleftrightarrow>
     (\<exists>n\<in>set (elements doc). contains_str ''FREE!'' (xp_text n)
        \<and> contains_str ''With ESO Plus Deal'' (xp_text n))"
  by (auto simp: eso_plus_free_text_def filter_empty_conv)

lemma extract_SomeD:
  assumes "extract_item_details w t c cat iu = Some it"
  obtains u doc n where "target_url_of c iu = Some u" "w u = Inr doc" "free_markers doc \<noteq> []"
    "resolve_name doc name_selectors = Inr (Some n)"
    "it = \<lparr>name = n, url = u, category_url = cat, image_url = resolve_image doc,
           is_eso_plus_free = (eso_plus_free_text doc \<noteq> [] \<or> loyalty_loop (free_markers doc)),
           found_date = t\<rparr>"
  using assms
  by (auto simp: extract_item_details_def Let_def split: option.splits sum.splits if_splits)

lemma extract_example:
  "extract_item_details ex_web ''2025-07-01 06:00:00'' None root_url (Some ex_u1)
     = Some (ex_item ex_u1)"
  by code_simp

lemma extract_plus_example:
  "extract_item_details (ex_serving ex_detail_plus) ''2025-07-01 06:00:00'' None root_url
     (Some ex_u1) = Some ex_item_plus"
  by code_simp

text \<open>
  The claim C3 fails on two pages. On \<open>ex_detail_stale\<close> the only \<open>FREE!\<close> marker
  lies inside a block that carries the loyalty class, the handle of the marker is stale,
  the handler of lines 166 to 168 passes the marker over, and the item is classified
  free for everyone. On \<open>ex_detail_later\<close> a paragraph has a text with both \<open>FREE!\<close>
  and the subscription-deal phrase, in its second text child; \<open>contains(text(), ...)\<close>
  reads the first text child only, and the item is classified free for everyone.
\<close>

theorem subscription_flag_counterexample:
  "extract_item_details (ex_serving ex_detail_stale) ''2025-07-01 06:00:00'' None root_url
     (Some ex_u1) = Some (ex_item ex_u1)
   \<and> is_eso_plus_free (ex_item ex_u1) = False
   \<and> map fst (free_markers ex_detail_stale) = [ex_stale_marker]
   \<and> stale ex_stale_marker
   \<and> map (map has_loyalty_class) (map snd (free_markers ex_detail_stale)) = [[True, False]]
   \<and> extract_item_details (ex_serving ex_detail_later) ''2025-07-01 06:00:00'' None root_url
       (Some ex_u1) = Some (ex_item ex_u1)
   \<and> ex_later_text \<in> set (elements ex_detail_later)
   \<and> kids ex_later_text
       = [Text ''Offer:'', Elem ''br'' [] False [] None [], Text '' FREE! With ESO Plus Deal'']
   \<and> contains_str ''FREE!'' '' FREE! With ESO Plus Deal''
   \<and> contains_str ''With ESO Plus Deal'' '' FREE! With ESO Plus Deal''
   \<and> contains_str ''FREE!'' (vis_text ex_later_text)
   \<and> contains_str ''With ESO Plus Deal'' (vis_text ex_later_text)
   \<and> xp_text ex_later_text = ''Offer:''"
  by code_simp

text \<open>
  C3, amended. A \<open>FREE!\<close> marker is an element whose first text child contains
  \<open>FREE!\<close>. For a detail page with at least one marker that is classified, the flag
  \<open>is_eso_plus_free\<close> is true exactly when some marker whose handle can be inspected
  without error carries the loyalty class itself or under an enclosing ancestor, or
  the first text child of some element contains both \<open>FREE!\<close> and the
  subscription-deal phrase; a marker whose inspection raises is passed over. When every
  marker can be inspected the first condition is: some marker carries the class itself
  or under an ancestor. Nothing else on the page changes the flag.
\<close>

theorem subscription_flag:
  assumes "extract_item_details w t c cat iu = Some it"
    and "w (url it) = Inr doc"
  shows "free_markers doc \<noteq> []
     \<and> is_eso_plus_free it =
         ((\<exists>h\<in>set (free_markers doc). \<not> stale (fst h)
              \<and> (\<exists>n\<in>set (fst h # snd h). has_loyalty_class n))
          \<or> (\<exists>n\<in>set (elements doc). contains_str ''FREE!'' (xp_text n)
                \<and> contains_str ''With ESO Plus Deal'' (xp_text n)))
     \<and> ((\<forall>h\<in>set (free_markers doc). \<not> stale (fst h)) \<longrightarrow>
          is_eso_plus_free it =
            ((\<exists>h\<in>set (free_markers doc). \<exists>n\<in>set (fst h # snd h). has_loyalty_class n)
             \<or> (\<exists>n\<in>set (elements doc). contains_str ''FREE!'' (xp_text n)
                   \<and> contains_str ''With ESO Plus Deal'' (xp_text n))))"
proof -
  from assms(1) obtain u doc' n where
    w: "w u = Inr doc'" and m: "free_markers doc' \<noteq> []" and
    it: "it = \<lparr>name = n, url = u, category_url = cat, image_url = resolve_image doc',
           is_eso_plus_free = (eso_plus_free_text doc' \<noteq> [] \<or> loyalty_loop (free_markers doc')),
           found_date = t\<rparr>"
    by (rule extract_SomeD)
  have "url it = u" by (simp add: it)
  with assms(2) w have d: "doc' = doc" by simp
  have flag: "is_eso_plus_free it =
      ((\<exists>h\<in>set (free_markers doc). \<not> stale (fst h)
           \<and> (\<exists>n\<in>set (fst h # snd h). has_loyalty_class n))
       \<or> (\<exists>n\<in>set (elements doc). contains_str ''FREE!'' (xp_text n)
             \<and> contains_str ''With ESO Plus Deal'' (xp_text n)))"
    unfolding it d loyalty_loop_iff loyalty_elements_iff eso_plus_free_text_iff by auto
  have "is_eso_plus_free it =
      ((\<exists>h\<in>set (free_markers doc). \<exists>n\<in>set (fst h # snd h). has_loyalty_class n)
       \<or> (\<exists>n\<in>set (elements doc). contains_str ''FREE!'' (xp_text n)
             \<and> contains_str ''With ESO Plus Deal'' (xp_text n)))"
    if "\<forall>h\<in>set (free_markers doc). \<not> stale (fst h)"
    unfolding flag using that by blast
  with flag m d show ?thesis by blast
qed

theorem subscription_flag_witness:
  "extract_item_details (ex_serving ex_detail_plus) ''2025-07-01 06:00:00'' None root_url
     (Some ex_u1) = Some ex_item_plus
   \<and> is_eso_plus_free ex_item_plus
   \<and> ((\<exists>h\<in>set (free_markers ex_detail_plus). \<exists>n\<in>set (fst h # snd h). has_loyalty_class n)
      \<or> (\<exists>n\<in>set (elements ex_detail_plus). contains_str ''FREE!'' (xp_text n)
            \<and> contains_str ''With ESO Plus Deal'' (xp_text n)))"
proof -
  have page: "ex_serving ex_detail_plus (url ex_item_plus) = Inr ex_detail_plus"
    by (simp add: ex_serving_def)
  have live: "\<forall>h\<in>set (free_markers ex_detail_plus). \<not> stale (fst h)" by code_simp
  have flag: "is_eso_plus_free ex_item_plus" by (simp add: ex_item_plus_def)
  from subscription_flag [OF extract_plus_example page] live flag extract_plus_example
  show ?thesis by blast
qed

lemma first_name_SomeD:
  "first_name els = Inr (Some n) \<Longrightarrow>
     \<exists>e\<in>set els. \<not> stale e \<and> n = py_strip (vis_text e) \<and> qualifies n"
  by (induction els) (auto simp: text_of_def split: if_splits sum.splits)

lemma resolve_name_SomeD:
  "resolve_name doc ss = Inr (Some n) \<Longrightarrow>
     \<exists>s\<in>set ss. \<exists>els. find_elements doc s = Inr els
        \<and> (\<exists>e\<in>set els. \<not> stale e \<and> n = py_strip (vis_text e) \<and> qualifies n)"
proof (induction ss)
  case Nil
  then show ?case by simp
next
  case (Cons s ss)
  show ?case
  proof (cases "find_elements doc s")
    case (Inl err)
    with Cons.prems show ?thesis by simp
  next
    case (Inr els)
    show ?thesis
    proof (cases "first_name els")
      case (Inl err)
      with Inr Cons.prems show ?thesis by simp
    next
      case fn: (Inr r)
      show ?thesis
      proof (cases r)
        case None
        with fn Inr Cons.prems have "resolve_name doc ss = Inr (Some n)" by simp
        from Cons.IH [OF this] show ?thesis by auto
      next
        case (Some n')
        with fn Inr Cons.prems have "n' = n" by simp
        with Some fn have "first_name els = Inr (Some n)" by simp
        from first_name_SomeD [OF this] Inr show ?thesis by auto
      qed
    qed
  qed
qed

text \<open>
  C4. A record is produced only for a page that loaded, has at least one \<open>FREE!\<close> marker
  and has a name: the stripped text of an element found by a name selector, not empty,
  longer than 2 and free of the two chrome phrases. A page without a marker yields no
  record, and so does a page on which no name selector finds an element with such a
  text. A record always has all of its fields.
\<close>

theorem item_needs_marker_and_name:
  "(extract_item_details w t c cat iu = Some it \<longrightarrow>
      (\<exists>doc. w (url it) = Inr doc \<and> free_markers doc \<noteq> []
         \<and> (\<exists>s\<in>set name_selectors. \<exists>els. find_elements doc s = Inr els
              \<and> (\<exists>e\<in>set els. name it = py_strip (vis_text e)))
         \<and> name it \<noteq> [] \<and> length (name it) > 2
         \<and> \<not> contains_str ''crown store'' (py_lower (name it))
         \<and> \<not> contains_str ''purchase crowns'' (py_lower (name it))))
   \<and> (target_url_of c iu = Some u \<and> w u = Inr doc \<and> free_markers doc = [] \<longrightarrow>
        extract_item_details w t c cat iu = None)
   \<and> (target_url_of c iu = Some u \<and> w u = Inr doc
        \<and> (\<forall>s\<in>set name_selectors. \<forall>els. find_elements doc s = Inr els \<longrightarrow>
              (\<forall>e\<in>set els. \<not> qualifies (py_strip (vis_text e)))) \<longrightarrow>
        extract_item_details w t c cat iu = None)"
proof (intro conjI impI)
  assume a: "extract_item_details w t c cat iu = Some it"
  from a obtain u' doc' n where
    w: "w u' = Inr doc'" and m: "free_markers doc' \<noteq> []" and
    rn: "resolve_name doc' name_selectors = Inr (Some n)" and
    it: "it = \<lparr>name = n, url = u', category_url = cat, image_url = resolve_image doc',
           is_eso_plus_free = (eso_plus_free_text doc' \<noteq> [] \<or> loyalty_loop (free_markers doc')),
           found_date = t\<rparr>"
    by (rule extract_SomeD)
  from resolve_name_SomeD [OF rn] obtain s els e where
    "s \<in> set name_selectors" "find_elements doc' s = Inr els" "e \<in> set els"
    "n = py_strip (vis_text e)" "qualifies n"
    by blast
  then show "\<exists>doc. w (url it) = Inr doc \<and> free_markers doc \<noteq> []
         \<and> (\<exists>s\<in>set name_selectors. \<exists>els. find_elements doc s = Inr els
              \<and> (\<exists>e\<in>set els. name it = py_strip (vis_text e)))
         \<and> name it \<noteq> [] \<and> length (name it) > 2
         \<and> \<not> contains_str ''crown store'' (py_lower (name it))
         \<and> \<not> contains_str ''purchase crowns'' (py_lower (name it))"
    using w m unfolding it qualifies_def by auto
next
  assume "target_url_of c iu = Some u \<and> w u = Inr doc \<and> free_markers doc = []"
  then show "extract_item_details w t c cat iu = None"
    by (simp add: extract_item_details_def)
next
  assume a: "target_url_of c iu = Some u \<and> w u = Inr doc
        \<and> (\<forall>s\<in>set name_selectors. \<forall>els. find_elements doc s = Inr els \<longrightarrow>
              (\<forall>e\<in>set els. \<not> qualifies (py_strip (vis_text e))))"
  have "resolve_name doc name_selectors \<noteq> Inr (Some n)" for n
    using resolve_name_SomeD [of doc name_selectors n] a by blast
  then show "extract_item_details w t c cat iu = None"
    using a by (auto simp: extract_item_details_def Let_def split: sum.splits option.splits)
qed

lemma strip_lower_example:
  "py_strip [CHR 0x1F, CHR 0x1F, CHR ''a'', CHR ''b'', CHR 0xA0, CHR 0x85] = ''ab''
   \<and> py_strip [CHR 0x1C, CHR ''M'', CHR ''o'', CHR 0x0B, CHR ''t'', CHR 0x1D, CHR 0x1E] = [CHR ''M'', CHR ''o'', CHR 0x0B, CHR ''t'']
   \<and> py_lower [CHR ''C'', CHR 0xC9, CHR 0xD7, CHR 0xDE, CHR 0xDF, CHR ''z'']
       = [CHR ''c'', CHR 0xE9, CHR 0xD7, CHR 0xFE, CHR 0xDF, CHR ''z'']"
  by code_simp

lemma short_name_example:
  "extract_item_details (ex_serving ex_short_name) ''2025-07-01 06:00:00'' None root_url
     (Some ex_u1) = None"
  by code_simp

lemma chrome_only_headings:
  "\<forall>e\<in>set (filter (\<lambda>n. tag n = ''h1'' \<or> tag n = ''h2'' \<or> tag n = ''h3'') (elements ex_chrome_only)).
      \<not> qualifies (py_strip (vis_text e))"
  by code_simp

theorem item_needs_marker_and_name_witness:
  "free_markers ex_detail \<noteq> []
   \<and> name (ex_item ex_u1) = ''Mount''
   \<and> extract_item_details (ex_serving ex_not_free) ''2025-07-01 06:00:00'' None root_url
       (Some ex_u1) = None
   \<and> extract_item_details (ex_serving ex_chrome_only) ''2025-07-01 06:00:00'' None root_url
       (Some ex_u1) = None"
proof -
  have tu: "target_url_of None (Some ex_u1) = Some ex_u1" by code_simp
  have "\<exists>doc. ex_web (url (ex_item ex_u1)) = Inr doc \<and> free_markers doc \<noteq> []"
    using item_needs_marker_and_name [of ex_web "''2025-07-01 06:00:00''" None root_url
        "Some ex_u1" "ex_item ex_u1"] extract_example
    by blast
  moreover have "ex_web (url (ex_item ex_u1)) = Inr ex_detail" by code_simp
  ultimately have m: "free_markers ex_detail \<noteq> []" by auto
  have nf: "free_markers ex_not_free = []" by code_simp
  have n1: "extract_item_details (ex_serving ex_not_free) ''2025-07-01 06:00:00'' None root_url
       (Some ex_u1) = None"
    using item_needs_marker_and_name [of "ex_serving ex_not_free" "''2025-07-01 06:00:00''" None
        root_url "Some ex_u1" _ ex_u1 ex_not_free] tu nf
    by (simp add: ex_serving_def)
  have sel: "\<forall>s\<in>set name_selectors. \<forall>els. find_elements ex_chrome_only s = Inr els \<longrightarrow>
      (\<forall>e\<in>set els. \<not> qualifies (py_strip (vis_text e)))"
    using chrome_only_headings by (auto simp: name_selectors_def)
  have n2: "extract_item_details (ex_serving ex_chrome_only) ''2025-07-01 06:00:00'' None root_url
       (Some ex_u1) = None"
    using item_needs_marker_and_name [of "ex_serving ex_chrome_only" "''2025-07-01 06:00:00''" None
        root_url "Some ex_u1" _ ex_u1 ex_chrome_only] tu sel
    by (simp add: ex_serving_def)
  have "name (ex_item ex_u1) = ''Mount''" by (simp add: ex_item_def)
  with m n1 n2 show ?thesis by simp
qed

section \<open>Image resolution\<close>

lemma map_of_dict_set: "map_of (dict_set k v d) = (map_of d)(k \<mapsto> v)"
  by (induction d) auto

lemma keys_dict_set: "fst ` set (dict_set k v d) = insert k (fst ` set d)"
proof -
  have "fst ` set (dict_set k v d) = dom (map_of (dict_set k v d))"
    by (simp only: dom_map_of_conv_image_fst)
  also have "\<dots> = insert k (dom (map_of d))"
    by (simp add: map_of_dict_set)
  finally show ?thesis by (simp only: dom_map_of_conv_image_fst)
qed

lemma distinct_dict_set: "distinct (map fst d) \<Longrightarrow> distinct (map fst (dict_set k v d))"
proof (induction d)
  case Nil
  then show ?case by simp
next
  case (Cons kv d)
  have "fst ` set (dict_set k v d) = insert k (fst ` set d)" by (rule keys_dict_set)
  with Cons show ?case by (cases kv) auto
qed

lemma collect_images_live:
  "\<forall>img\<in>set imgs. \<not> stale img \<Longrightarrow>
     collect_images imgs d = Inr (foldl assign d (List.map_filter recorded imgs))"
proof (induction imgs arbitrary: d)
  case Nil
  then show ?case by simp
next
  case (Cons img imgs)
  then have live: "\<not> stale img" and rest: "\<forall>img\<in>set imgs. \<not> stale img" by simp_all
  note IH = Cons.IH [OF rest]
  show ?case
    using live
    by (auto simp: IH get_attribute_def size_of_def recorded_def assign_def split: option.splits)
qed

lemma collect_images_stale:
  "\<exists>img\<in>set imgs. stale img \<Longrightarrow> \<exists>err. collect_images imgs d = Inl err"
proof (induction imgs arbitrary: d)
  case Nil
  then show ?case by simp
next
  case (Cons img imgs)
  show ?case
  proof (cases "stale img")
    case True
    then show ?thesis by (simp add: get_attribute_def)
  next
    case False
    with Cons.prems have "\<exists>img\<in>set imgs. stale img" by simp
    from Cons.IH [OF this] show ?thesis
      using False by (auto simp: get_attribute_def size_of_def split: option.splits)
  qed
qed

lemma map_of_foldl_assign: "map_of (foldl assign d es) = map_of (rev es @ d)"
proof (induction es arbitrary: d)
  case Nil
  then show ?case by simp
next
  case (Cons e es)
  have "map_of (foldl assign d (e # es)) = map_of (rev es @ assign d e)"
    by (simp add: Cons.IH)
  also have "\<dots> = map_of (assign d e) ++ map_of (rev es)"
    by (simp only: map_of_append)
  also have "map_of (assign d e) = map_of (e # d)"
    by (cases e) (simp add: assign_def map_of_dict_set)
  also have "map_of (e # d) ++ map_of (rev es) = map_of (rev (e # es) @ d)"
    by (simp only: rev.simps append_assoc map_of_append append.simps)
  finally show ?case .
qed

lemma distinct_foldl_assign:
  "distinct (map fst d) \<Longrightarrow> distinct (map fst (foldl assign d es))"
  by (induction es arbitrary: d) (simp_all add: assign_def distinct_dict_set)

lemma max_key_greatest:
  "\<exists>v. (max_key best d, v) \<in> set (best # d) \<and> (\<forall>kv\<in>set (best # d). snd kv \<le> v)"
proof (induction d arbitrary: best)
  case Nil
  then show ?case by (cases best) auto
next
  case (Cons kv d)
  show ?case
  proof (cases "snd kv > snd best")
    case True
    from Cons.IH [of kv] obtain v where
      "(max_key kv d, v) \<in> set (kv # d)" "\<forall>x\<in>set (kv # d). snd x \<le> v" by blast
    with True show ?thesis by (intro exI [of _ v]) auto
  next
    case False
    from Cons.IH [of best] obtain v where
      "(max_key best d, v) \<in> set (best # d)" "\<forall>x\<in>set (best # d). snd x \<le> v" by blast
    with False show ?thesis by (intro exI [of _ v]) auto
  qed
qed

lemma set_map_filter_recorded:
  "set (List.map_filter f xs) = {y. \<exists>x\<in>set xs. f x = Some y}"
  by (induction xs) (auto split: option.splits)

lemma map_filter_empty_iff:
  "List.map_filter f xs = [] \<longleftrightarrow> (\<forall>x\<in>set xs. f x = None)"
  by (induction xs) (auto split: option.splits)

lemma entries_empty_iff:
  "entries doc = [] \<longleftrightarrow> (\<forall>img\<in>set (img_elements doc). recorded img = None)"
  unfolding entries_def by (rule map_filter_empty_iff)

lemma recorded_area_entry:
  "recorded_area doc u = Some a \<Longrightarrow> \<exists>img\<in>set (img_elements doc). recorded img = Some (u, a)"
proof -
  assume "recorded_area doc u = Some a"
  then have "(u, a) \<in> set (rev (entries doc))"
    unfolding recorded_area_def by (rule map_of_SomeD)
  then show ?thesis
    unfolding entries_def by (simp add: set_map_filter_recorded)
qed

lemma resolve_image_live:
  assumes live: "\<forall>img\<in>set (img_elements doc). \<not> stale img"
  shows "(resolve_image doc = None \<longleftrightarrow> entries doc = [])"
    and "resolve_image doc = Some u \<Longrightarrow>
      \<exists>a. recorded_area doc u = Some a \<and> (\<forall>s b. recorded_area doc s = Some b \<longrightarrow> b \<le> a)"
proof -
  define T where "T = foldl assign [] (entries doc)"
  have col: "collect_images (img_elements doc) [] = Inr T"
    unfolding T_def entries_def by (rule collect_images_live [OF live])
  have mT: "map_of T = map_of (rev (entries doc))"
    unfolding T_def by (simp add: map_of_foldl_assign)
  have dT: "distinct (map fst T)"
    unfolding T_def by (rule distinct_foldl_assign) simp
  have TE: "T = [] \<longleftrightarrow> entries doc = []"
  proof
    assume "T = []"
    then have "dom (map_of (rev (entries doc))) = {}" using mT by simp
    then show "entries doc = []" by (simp add: dom_map_of_conv_image_fst)
  next
    assume "entries doc = []"
    then show "T = []" by (simp add: T_def)
  qed
  have "resolve_image doc = None \<longleftrightarrow> T = []"
    by (cases T) (simp_all add: resolve_image_def col)
  then show "(resolve_image doc = None \<longleftrightarrow> entries doc = [])"
    by (simp only: TE)
  show "\<exists>a. recorded_area doc u = Some a \<and> (\<forall>s b. recorded_area doc s = Some b \<longrightarrow> b \<le> a)"
    if "resolve_image doc = Some u"
  proof -
    from that obtain kv d where T: "T = kv # d" and u: "u = max_key kv d"
      by (auto simp: resolve_image_def col split: list.splits)
    from max_key_greatest [of kv d] obtain a where
      a: "(u, a) \<in> set T" and g: "\<forall>x\<in>set T. snd x \<le> a"
      unfolding T u by blast
    have "map_of T u = Some a" using a dT by simp
    moreover have "b \<le> a" if "map_of T s = Some b" for s b
      using map_of_SomeD [OF that] g by force
    ultimately show ?thesis unfolding recorded_area_def mT [symmetric] by blast
  qed
qed

lemma resolve_image_stale:
  "\<exists>img\<in>set (img_elements doc). stale img \<Longrightarrow> resolve_image doc = None"
  using collect_images_stale [of "img_elements doc" "[]"]
  by (auto simp: resolve_image_def)

lemma extract_succeeds:
  assumes "target_url_of c iu = Some tu" "w tu = Inr doc" "free_markers doc \<noteq> []"
    "resolve_name doc name_selectors = Inr (Some n)"
  shows "extract_item_details w t c cat iu \<noteq> None"
  using assms by (simp add: extract_item_details_def Let_def)

text \<open>
  The claim C5 fails on two pages. On \<open>ex_off_host\<close> the only image is 300 by 200
  pixels, its address contains the asset path and does not contain the currency icon,
  yet no image is selected: the address is not on the host \<open>akamaihd.net\<close>. On
  \<open>ex_unreadable\<close> reading the size of the only image raises, and the image is selected.
\<close>

theorem image_selection_counterexample:
  "extract_item_details (ex_serving ex_off_host) ''2025-07-01 06:00:00'' None root_url (Some ex_u1)
     = Some (ex_item ex_u1)
   \<and> image_url (ex_item ex_u1) = None
   \<and> img_elements ex_off_host
       = [ex_img ''https://images.example.com/ape/uploads/large.png'' (Some (300, 200))]
   \<and> contains_str ''/ape/uploads/'' ''https://images.example.com/ape/uploads/large.png''
   \<and> \<not> contains_str ''icon-crown'' ''https://images.example.com/ape/uploads/large.png''
   \<and> size_of (ex_img ''https://esosslfiles-a.akamaihd.net/ape/uploads/large.png'' None)
       = Inl WebDriverError
   \<and> extract_item_details (ex_serving ex_unreadable) ''2025-07-01 06:00:00'' None root_url
       (Some ex_u1)
     = Some ((ex_item ex_u1)
         \<lparr>image_url := Some ''https://esosslfiles-a.akamaihd.net/ape/uploads/large.png''\<rparr>)"
  by code_simp

text \<open>
  C5, amended. The candidates are the images whose address contains the host
  \<open>akamaihd.net\<close> and the asset path and does not contain the currency icon, and whose
  width and height are both over 100 pixels or whose size cannot be read; a candidate
  records its area under its address, 0 when its size cannot be read, a later candidate
  with the same address replacing the earlier area. When every image handle can be
  read, \<open>image_url\<close> is absent exactly when there is no candidate, and otherwise it is
  the address of a candidate and no address has a greater recorded area. When an
  image handle is stale, \<open>image_url\<close> is absent. Image resolution never decides whether
  a record is produced.
\<close>

theorem image_selection:
  "((\<forall>img\<in>set (img_elements doc). \<not> stale img) \<longrightarrow>
      (resolve_image doc = None \<longleftrightarrow> (\<forall>img\<in>set (img_elements doc). recorded img = None))
      \<and> (resolve_image doc = Some u \<longrightarrow>
           (\<exists>a. recorded_area doc u = Some a
              \<and> (\<exists>img\<in>set (img_elements doc). recorded img = Some (u, a))
              \<and> (\<forall>s b. recorded_area doc s = Some b \<longrightarrow> b \<le> a))))
   \<and> ((\<exists>img\<in>set (img_elements doc). stale img) \<longrightarrow> resolve_image doc = None)
   \<and> (extract_item_details w t c cat iu = Some it \<and> w (url it) = Inr doc \<longrightarrow>
        image_url it = resolve_image doc)
   \<and> (target_url_of c iu = Some tu \<and> w tu = Inr doc \<and> free_markers doc \<noteq> []
        \<and> resolve_name doc name_selectors = Inr (Some n) \<longrightarrow>
        extract_item_details w t c cat iu \<noteq> None)"
proof (intro conjI impI)
  assume live: "\<forall>img\<in>set (img_elements doc). \<not> stale img"
  show "resolve_image doc = None \<longleftrightarrow> (\<forall>img\<in>set (img_elements doc). recorded img = None)"
    using resolve_image_live(1) [OF live] by (simp only: entries_empty_iff)
next
  assume live: "\<forall>img\<in>set (img_elements doc). \<not> stale img"
    and some: "resolve_image doc = Some u"
  from resolve_image_live(2) [OF live some] obtain a where
    a: "recorded_area doc u = Some a" and g: "\<forall>s b. recorded_area doc s = Some b \<longrightarrow> b \<le> a"
    by blast
  from recorded_area_entry [OF a] a g
  show "\<exists>a. recorded_area doc u = Some a
      \<and> (\<exists>img\<in>set (img_elements doc). recorded img = Some (u, a))
      \<and> (\<forall>s b. recorded_area doc s = Some b \<longrightarrow> b \<le> a)"
    by blast
next
  assume "\<exists>img\<in>set (img_elements doc). stale img"
  then show "resolve_image doc = None" by (rule resolve_image_stale)
next
  assume a: "extract_item_details w t c cat iu = Some it \<and> w (url it) = Inr doc"
  then have e: "extract_item_details w t c cat iu = Some it" and p: "w (url it) = Inr doc"
    by simp_all
  from e obtain u' doc' n' where
    w: "w u' = Inr doc'" and
    it: "it = \<lparr>name = n', url = u', category_url = cat, image_url = resolve_image doc',
           is_eso_plus_free = (eso_plus_free_text doc' \<noteq> [] \<or> loyalty_loop (free_markers doc')),
           found_date = t\<rparr>"
    by (rule extract_SomeD)
  have "url it = u'" by (simp add: it)
  with p w have "doc' = doc" by simp
  then show "image_url it = resolve_image doc" by (simp add: it)
next
  assume "target_url_of c iu = Some tu \<and> w tu = Inr doc \<and> free_markers doc \<noteq> []
        \<and> resolve_name doc name_selectors = Inr (Some n)"
  then show "extract_item_details w t c cat iu \<noteq> None"
    using extract_succeeds [of c iu tu w doc n t cat] by blast
qed

lemma gallery_live: "\<forall>img\<in>set (img_elements ex_gallery). \<not> stale img"
  by code_simp

lemma gallery_image:
  "resolve_image ex_gallery = Some ''https://esosslfiles-a.akamaihd.net/ape/uploads/large.png''"
  by code_simp

lemma gallery_areas:
  "recorded_area ex_gallery ''https://esosslfiles-a.akamaihd.net/ape/uploads/large.png''
     = Some 60000
   \<and> recorded_area ex_gallery ''https://esosslfiles-a.akamaihd.net/ape/uploads/medium.png''
     = Some 22500
   \<and> recorded_area ex_gallery ''https://esosslfiles-a.akamaihd.net/ape/uploads/small.png''
     = None"
  by code_simp

theorem image_selection_witness:
  "resolve_image ex_gallery = Some ''https://esosslfiles-a.akamaihd.net/ape/uploads/large.png''
   \<and> (\<exists>a. recorded_area ex_gallery ''https://esosslfiles-a.akamaihd.net/ape/uploads/large.png''
          = Some a
        \<and> (\<exists>img\<in>set (img_elements ex_gallery).
              recorded img
                = Some (''https://esosslfiles-a.akamaihd.net/ape/uploads/large.png'', a))
        \<and> (\<forall>s b. recorded_area ex_gallery s = Some b \<longrightarrow> b \<le> a))
   \<and> recorded_area ex_gallery ''https://esosslfiles-a.akamaihd.net/ape/uploads/medium.png''
       = Some 22500"
  using image_selection [of ex_gallery
      "''https://esosslfiles-a.akamaihd.net/ape/uploads/large.png''"]
    gallery_live gallery_image gallery_areas
  by blast

section \<open>The run\<close>

lemma classified_append: "classified (evs @ evs') = classified evs @ classified evs'"
  by (induction evs rule: classified.induct) simp_all

lemma foldl_invariant:
  "P s \<Longrightarrow> (\<And>s x. P s \<Longrightarrow> P (f s x)) \<Longrightarrow> P (foldl f s xs)"
  by (induction xs arbitrary: s) simp_all

lemma foldl_related:
  "R s s' \<Longrightarrow> (\<And>s s' x. R s s' \<Longrightarrow> R (f s x) (g s' x)) \<Longrightarrow> R (foldl f s xs) (foldl g s' xs)"
  by (induction xs arbitrary: s s') simp_all

lemma run_inv_process_item:
  "run_inv posted s \<Longrightarrow> run_inv posted (process_item e posted l s iu)"
  by (auto simp: run_inv_def process_item_def Let_def classified_append set_set_add
      split: option.splits)

lemma run_inv_check_url:
  "run_inv posted s \<Longrightarrow> run_inv posted (check_url e posted s l)"
  unfolding check_url_def
  by (cases "web e l") (simp_all add: foldl_invariant run_inv_process_item)

lemma run_inv_sweep: "run_inv (load_posted_items fs) (sweep e fs)"
  unfolding sweep_def Let_def
proof (rule foldl_invariant)
  show "run_inv (load_posted_items fs)
     \<lparr>free_items = [], processed_urls = [], new_posted_items = load_posted_items fs,
        sent = [], events = []\<rparr>"
    by (simp add: run_inv_def)
next
  fix s x
  assume "run_inv (load_posted_items fs) s"
  then show "run_inv (load_posted_items fs) (check_url e (load_posted_items fs) s x)"
    by (rule run_inv_check_url)
qed

lemma sweep_free_items:
  "free_items (sweep e fs) =
     filter (\<lambda>i. item_id i \<notin> set (load_posted_items fs)) (classified (events (sweep e fs)))"
  using run_inv_sweep [of fs e] by (simp add: run_inv_def)

lemma sweep_new_posted_items:
  "set (new_posted_items (sweep e fs)) =
     set (load_posted_items fs) \<union> item_id ` set (free_items (sweep e fs))"
  using run_inv_sweep [of fs e] by (simp add: run_inv_def)

lemma sweep_sent: "map fst (sent (sweep e fs)) = free_items (sweep e fs)"
  using run_inv_sweep [of fs e] by (simp add: run_inv_def)

lemma load_after_main:
  "posted_write fs = Written \<Longrightarrow>
     load_posted_items (main e fs) = remdups (new_posted_items (sweep e fs))"
  by (simp add: main_def scrape_free_items_def save_posted_items_def load_posted_items_def
      read_back_dumps)

lemma posted_write_main: "posted_write (main e fs) = posted_write fs"
  by (simp add: main_def scrape_free_items_def save_posted_items_def split: write_outcome.splits)

lemma same_process_item:
  "same_but_sent s s' \<Longrightarrow>
     same_but_sent (process_item e posted l s iu) (process_item (e\<lparr>post := p\<rparr>) posted l s' iu)"
  by (auto simp: same_but_sent_def process_item_def Let_def split: option.splits)

lemma same_check_url:
  "same_but_sent s s' \<Longrightarrow>
     same_but_sent (check_url e posted s l) (check_url (e\<lparr>post := p\<rparr>) posted s' l)"
  unfolding check_url_def
  by (cases "web e l") (simp_all add: foldl_related same_process_item)

lemma same_sweep: "same_but_sent (sweep e fs) (sweep (e\<lparr>post := p\<rparr>) fs)"
proof -
  have "same_but_sent
     (foldl (check_url e (load_posted_items fs))
        \<lparr>free_items = [], processed_urls = [], new_posted_items = load_posted_items fs,
           sent = [], events = []\<rparr>
        (urls_to_check (get_all_crownstore_urls (web e))))
     (foldl (check_url (e\<lparr>post := p\<rparr>) (load_posted_items fs))
        \<lparr>free_items = [], processed_urls = [], new_posted_items = load_posted_items fs,
           sent = [], events = []\<rparr>
        (urls_to_check (get_all_crownstore_urls (web e))))"
  proof (rule foldl_related)
    show "same_but_sent
       \<lparr>free_items = [], processed_urls = [], new_posted_items = load_posted_items fs,
          sent = [], events = []\<rparr>
       \<lparr>free_items = [], processed_urls = [], new_posted_items = load_posted_items fs,
          sent = [], events = []\<rparr>"
      by (simp add: same_but_sent_def)
  next
    fix s s' x
    assume "same_but_sent s s'"
    then show "same_but_sent (check_url e (load_posted_items fs) s x)
       (check_url (e\<lparr>post := p\<rparr>) (load_posted_items fs) s' x)"
      by (rule same_check_url)
  qed
  then show ?thesis by (simp add: sweep_def Let_def)
qed

text \<open>Runs of the example storefront, evaluated.\<close>

lemma sweep_new_example:
  "sweep ex_env ex_fs_new =
     \<lparr>free_items = [ex_item ex_u1, ex_item ex_u2], processed_urls = [ex_u1, ex_u2],
      new_posted_items = [''Mount-False''],
      sent = [(ex_item ex_u1, True), (ex_item ex_u2, True)],
      events = [FoundFreeItem (ex_item ex_u1), FoundFreeItem (ex_item ex_u2)]\<rparr>"
  by code_simp

lemma sweep_down_example:
  "sweep ex_env_down ex_fs_new =
     \<lparr>free_items = [ex_item ex_u1, ex_item ex_u2], processed_urls = [ex_u1, ex_u2],
      new_posted_items = [''Mount-False''],
      sent = [(ex_item ex_u1, False), (ex_item ex_u2, False)],
      events = [FoundFreeItem (ex_item ex_u1), FoundFreeItem (ex_item ex_u2)]\<rparr>"
  by code_simp

lemma sweep_seen_example:
  "sweep ex_env ex_fs_seen =
     \<lparr>free_items = [], processed_urls = [ex_u1, ex_u2],
      new_posted_items = [''Mount-False''],
      sent = [],
      events = [SkippingPosted (ex_item ex_u1), SkippingPosted (ex_item ex_u2)]\<rparr>"
  by code_simp

lemma item_id_example: "item_id (ex_item u) = ''Mount-False''"
  by (simp add: item_id_def ex_item_def str_bool_def)

text \<open>
  An identity of the Ledger loaded at the start is never notified, and every
  notification is for an item of the returned list.
\<close>

lemma snapshot_identity_not_notified:
  "n \<in> set (sent (sweep e fs)) \<Longrightarrow> item_id (fst n) \<notin> set (load_posted_items fs)"
proof -
  assume "n \<in> set (sent (sweep e fs))"
  then have "fst n \<in> fst ` set (sent (sweep e fs))" by (rule imageI)
  then have "fst n \<in> set (map fst (sent (sweep e fs)))" by simp
  then have "fst n \<in> set (free_items (sweep e fs))" by (simp only: sweep_sent)
  then have "fst n \<in> set (filter (\<lambda>i. item_id i \<notin> set (load_posted_items fs))
      (classified (events (sweep e fs))))"
    by (simp only: sweep_free_items [symmetric])
  then show ?thesis by simp
qed

text \<open>
  C1. The claim holds for identities of the loaded Ledger and fails within one run: the
  test of line 405 reads \<open>posted_items\<close>, the Ledger as loaded, not
  \<open>new_posted_items\<close>. On the example storefront, with an empty Ledger, the two detail
  pages \<open>ex_u1\<close> and \<open>ex_u2\<close> both classify as the item Mount, free for everyone, and two
  notifications are dispatched for the one identity \<open>Mount-False\<close>.
\<close>

theorem same_identity_notified_twice:
  "map item_id (map fst (sent (sweep ex_env ex_fs_new))) = [''Mount-False'', ''Mount-False'']
   \<and> map url (map fst (sent (sweep ex_env ex_fs_new))) = [ex_u1, ex_u2]
   \<and> map snd (sent (sweep ex_env ex_fs_new)) = [True, True]
   \<and> load_posted_items ex_fs_new = []
   \<and> ex_u1 \<noteq> ex_u2"
  by code_simp

text \<open>
  The claim C2 fails when the Ledger already holds an identity: on the example
  storefront with \<open>Mount-False\<close> in the Ledger both detail pages are classified, and the
  output artifact is the empty list.
\<close>

theorem output_counterexample:
  "classified (events (sweep ex_env ex_fs_seen)) = [ex_item ex_u1, ex_item ex_u2]
   \<and> load_posted_items ex_fs_seen = [''Mount-False'']
   \<and> output_file (main ex_env ex_fs_seen) = Some []"
  by code_simp

text \<open>
  C2, amended. The output artifact written at the end of a run holds exactly the items
  classified during the run whose identity is not in the Ledger loaded at the start of
  the run, in the order of their classification.
\<close>

theorem output_is_new_items:
  "output_file (main e fs) =
     Some (filter (\<lambda>i. item_id i \<notin> set (load_posted_items fs))
       (classified (events (sweep e fs))))"
  using sweep_free_items [of e fs]
  by (simp add: main_def scrape_free_items_def)

theorem output_is_new_items_witness:
  "output_file (main ex_env ex_fs_new) = Some [ex_item ex_u1, ex_item ex_u2]"
proof -
  have "filter (\<lambda>i. item_id i \<notin> set (load_posted_items ex_fs_new))
      (classified (events (sweep ex_env ex_fs_new))) = [ex_item ex_u1, ex_item ex_u2]"
    unfolding sweep_new_example by (simp add: item_id_example load_posted_items_def ex_fs_new_def)
  with output_is_new_items [of ex_env ex_fs_new] show ?thesis by simp
qed

text \<open>
  The claim C6 fails when the Ledger cannot be written: on the example storefront with
  an absent Ledger file that cannot be opened for writing, the item Mount is classified,
  its identity is not in the loaded Ledger, its notification is delivered, and the
  Ledger after the run does not hold the identity.
\<close>

theorem identity_recorded_counterexample:
  "classified (events (sweep ex_env ex_fs_new_locked)) = [ex_item ex_u1, ex_item ex_u2]
   \<and> item_id (ex_item ex_u1) = ''Mount-False''
   \<and> load_posted_items ex_fs_new_locked = []
   \<and> map snd (sent (sweep ex_env ex_fs_new_locked)) = [True, True]
   \<and> posted_write ex_fs_new_locked = OpenFailed
   \<and> load_posted_items (main ex_env ex_fs_new_locked) = []"
  by code_simp

text \<open>
  C6, amended. Every item classified in a run whose identity is not in the Ledger loaded
  at the start has its identity in \<open>new_posted_items\<close> at the end and, when the write of
  the Ledger file at the end of the run succeeds, in the Ledger file that the run saves,
  whatever the notification channel answers: with any other channel \<open>p\<close> in place of
  the run's, the same items are classified and the Ledger file is left the same.
\<close>

theorem identity_recorded_whatever_delivery:
  "(\<forall>i\<in>set (classified (events (sweep e fs))).
      item_id i \<notin> set (load_posted_items fs) \<longrightarrow>
        item_id i \<in> set (new_posted_items (sweep e fs))
        \<and> (posted_write fs = Written \<longrightarrow> item_id i \<in> set (load_posted_items (main e fs))))
   \<and> classified (events (sweep (e\<lparr>post := p\<rparr>) fs)) = classified (events (sweep e fs))
   \<and> posted_file (main (e\<lparr>post := p\<rparr>) fs) = posted_file (main e fs)"
proof -
  have same: "same_but_sent (sweep e fs) (sweep (e\<lparr>post := p\<rparr>) fs)" by (rule same_sweep)
  have "item_id i \<in> set (new_posted_items (sweep e fs))"
    if "i \<in> set (classified (events (sweep e fs)))" "item_id i \<notin> set (load_posted_items fs)" for i
  proof -
    from that have "i \<in> set (filter (\<lambda>i. item_id i \<notin> set (load_posted_items fs))
        (classified (events (sweep e fs))))"
      by simp
    then have "i \<in> set (free_items (sweep e fs))"
      by (simp only: sweep_free_items [symmetric])
    then show ?thesis by (simp add: sweep_new_posted_items)
  qed
  moreover have "posted_file (main (e\<lparr>post := p\<rparr>) fs) = posted_file (main e fs)"
    using same
    by (simp add: main_def scrape_free_items_def save_posted_items_def same_but_sent_def
        split: write_outcome.splits)
  moreover have "classified (events (sweep (e\<lparr>post := p\<rparr>) fs)) = classified (events (sweep e fs))"
    using same by (simp add: same_but_sent_def)
  ultimately show ?thesis by (simp add: load_after_main)
qed

theorem identity_recorded_whatever_delivery_witness:
  "sent (sweep ex_env_down ex_fs_new) = [(ex_item ex_u1, False), (ex_item ex_u2, False)]
   \<and> ex_item ex_u1 \<in> set (classified (events (sweep ex_env_down ex_fs_new)))
   \<and> item_id (ex_item ex_u1) \<notin> set (load_posted_items ex_fs_new)
   \<and> item_id (ex_item ex_u1) \<in> set (new_posted_items (sweep ex_env_down ex_fs_new))
   \<and> posted_write ex_fs_new = Written
   \<and> item_id (ex_item ex_u1) \<in> set (load_posted_items (main ex_env_down ex_fs_new))"
proof -
  have c: "ex_item ex_u1 \<in> set (classified (events (sweep ex_env_down ex_fs_new)))"
    unfolding sweep_down_example by simp
  have n: "item_id (ex_item ex_u1) \<notin> set (load_posted_items ex_fs_new)"
    by (simp add: load_posted_items_def ex_fs_new_def)
  have s: "sent (sweep ex_env_down ex_fs_new) = [(ex_item ex_u1, False), (ex_item ex_u2, False)]"
    unfolding sweep_down_example by simp
  have w: "posted_write ex_fs_new = Written" by (simp add: ex_fs_new_def)
  from identity_recorded_whatever_delivery [of ex_env_down ex_fs_new] c n w
  have "item_id (ex_item ex_u1) \<in> set (new_posted_items (sweep ex_env_down ex_fs_new))
      \<and> item_id (ex_item ex_u1) \<in> set (load_posted_items (main ex_env_down ex_fs_new))"
    by blast
  with c n s w show ?thesis by simp
qed

text \<open>
  The claim C10 fails when the write of the Ledger breaks off: the run starts with the
  identity \<open>Mount-False\<close> in the Ledger, \<open>open\<close> empties the file, the write raises, and
  the Ledger after the run loads as the empty set.
\<close>

theorem ledger_only_grows_counterexample:
  "load_posted_items ex_fs_seen_failing = [''Mount-False'']
   \<and> posted_write ex_fs_seen_failing = WriteFailed
   \<and> load_posted_items (main ex_env ex_fs_seen_failing) = []"
  by code_simp

text \<open>
  C10, amended. In every run the set handed to the save contains the Ledger loaded at
  the start and the identity of every item for which the run dispatched a notification:
  identities are only added during a run. When the write of the Ledger file succeeds,
  the Ledger the run saves is that set, so that it contains the loaded Ledger and every
  notified identity, and over repeated runs with successful writes the Ledger never
  loses an identity. When the file cannot be opened for writing the Ledger file is left
  as it was, and when the write breaks off the Ledger after the run loads as the empty
  set.
\<close>

theorem ledger_only_grows:
  "set (load_posted_items fs) \<subseteq> set (new_posted_items (sweep e fs))
   \<and> (\<forall>n\<in>set (sent (sweep e fs)). item_id (fst n) \<in> set (new_posted_items (sweep e fs)))
   \<and> (posted_write fs = Written \<longrightarrow>
        set (load_posted_items (main e fs)) = set (new_posted_items (sweep e fs))
        \<and> set (load_posted_items fs) \<subseteq> set (load_posted_items (main e fs))
        \<and> set (load_posted_items fs) \<subseteq> set (load_posted_items (main e' (main e fs))))
   \<and> (posted_write fs = OpenFailed \<longrightarrow> posted_file (main e fs) = posted_file fs)
   \<and> (posted_write fs = WriteFailed \<longrightarrow> load_posted_items (main e fs) = [])"
proof -
  have mem: "set (load_posted_items fs) \<subseteq> set (new_posted_items (sweep e fs))" for e fs
    by (simp add: sweep_new_posted_items)
  have mono: "set (load_posted_items fs) \<subseteq> set (load_posted_items (main e fs))"
    if "posted_write fs = Written" for e fs
    using that by (simp add: load_after_main sweep_new_posted_items)
  have notified: "item_id (fst n) \<in> set (new_posted_items (sweep e fs))"
    if "n \<in> set (sent (sweep e fs))" for n
  proof -
    from that have "fst n \<in> fst ` set (sent (sweep e fs))" by (rule imageI)
    then have "fst n \<in> set (map fst (sent (sweep e fs)))" by simp
    then have "fst n \<in> set (free_items (sweep e fs))" by (simp only: sweep_sent)
    then show ?thesis by (simp add: sweep_new_posted_items)
  qed
  have twice: "set (load_posted_items fs) \<subseteq> set (load_posted_items (main e' (main e fs)))"
    if w: "posted_write fs = Written"
  proof -
    have "posted_write (main e fs) = Written" using w by (simp add: posted_write_main)
    from mono [OF w, of e] mono [OF this, of e'] show ?thesis by blast
  qed
  have saved: "set (load_posted_items (main e fs)) = set (new_posted_items (sweep e fs))"
    if "posted_write fs = Written"
    using that by (simp add: load_after_main)
  have kept: "posted_file (main e fs) = posted_file fs" if "posted_write fs = OpenFailed"
    using that by (simp add: main_def scrape_free_items_def save_posted_items_def)
  have lost: "load_posted_items (main e fs) = []" if "posted_write fs = WriteFailed"
    using that
    by (simp add: main_def scrape_free_items_def save_posted_items_def load_posted_items_def)
  from mem notified saved mono twice kept lost show ?thesis by blast
qed

theorem ledger_only_grows_witness:
  "''Mount-False'' \<in> set (load_posted_items ex_fs_seen)
   \<and> posted_write ex_fs_seen = Written
   \<and> ''Mount-False'' \<in> set (load_posted_items (main ex_env ex_fs_seen))
   \<and> (ex_item ex_u1, True) \<in> set (sent (sweep ex_env ex_fs_new))
   \<and> item_id (ex_item ex_u1) \<in> set (new_posted_items (sweep ex_env ex_fs_new))
   \<and> posted_file (main ex_env ex_fs_new_locked) = posted_file ex_fs_new_locked
   \<and> load_posted_items (main ex_env ex_fs_seen_failing) = []"
proof -
  have a: "''Mount-False'' \<in> set (load_posted_items ex_fs_seen)"
    by (simp add: load_posted_items_def ex_fs_seen_def)
  have w: "posted_write ex_fs_seen = Written" by (simp add: ex_fs_seen_def)
  have s: "(ex_item ex_u1, True) \<in> set (sent (sweep ex_env ex_fs_new))"
    unfolding sweep_new_example by simp
  from ledger_only_grows [of ex_fs_seen ex_env] a w
  have b: "''Mount-False'' \<in> set (load_posted_items (main ex_env ex_fs_seen))" by blast
  from ledger_only_grows [of ex_fs_new ex_env] s
  have "item_id (fst (ex_item ex_u1, True)) \<in> set (new_posted_items (sweep ex_env ex_fs_new))"
    by blast
  then have c: "item_id (ex_item ex_u1) \<in> set (new_posted_items (sweep ex_env ex_fs_new))"
    by simp
  have o: "posted_write ex_fs_new_locked = OpenFailed" by (simp add: ex_fs_new_locked_def)
  from ledger_only_grows [of ex_fs_new_locked ex_env] o
  have d: "posted_file (main ex_env ex_fs_new_locked) = posted_file ex_fs_new_locked" by blast
  have f: "posted_write ex_fs_seen_failing = WriteFailed" by (simp add: ex_fs_seen_failing_def)
  from ledger_only_grows [of ex_fs_seen_failing ex_env] f
  have e: "load_posted_items (main ex_env ex_fs_seen_failing) = []" by blast
  from a w b s c d e show ?thesis by simp
qed

end
